theory Spec2Isabelle
  imports
    Main
    "HOL-Library.Multiset"
    "HOL-Library.Product_Lexorder"
    "HOL-Library.AList"
    "HOL-Library.Char_ord"
    "HOL-Library.List_Lexorder"
begin

section \<open>Values crossing the HTTP and WebSocket boundary\<close>

text \<open>
  A value of a parsed JSON text, as \<open>express.json()\<close> and \<open>JSON.parse\<close> produce it.
  Numbers are modelled as integers: fractional numbers, infinities and integers that a
  double does not hold exactly are outside the model. A string is the list of its
  characters, each a \<open>char\<close>. A field that is absent from an object reads as
  \<open>undefined\<close> in JavaScript; it is \<open>None\<close> of \<open>json option\<close> here.
\<close>

datatype json =
    JNull
  | JBool bool
  | JNum int
  | JStr string
  | JArr "json list"
  | JObj "(string \<times> json) list"

section \<open>The relational store\<close>

text \<open>
  The two tables of \<open>criarTabelas\<close>. A \<open>TIMESTAMP\<close> is a number of microseconds.
  Every column is non-null in a stored row: \<open>id\<close> is a primary key, \<open>nome\<close>,
  \<open>telefone\<close>, \<open>remetente_id\<close>, \<open>destinatario_id\<close> and \<open>texto\<close> are declared
  \<open>NOT NULL\<close>, and the two timestamps are never given by an \<open>INSERT\<close> of the
  program, so they always take their default \<open>CURRENT_TIMESTAMP\<close>.
\<close>

record usuario =
  u_id :: int
  nome :: string
  telefone :: string
  criado_em :: int

record mensagem =
  m_id :: int
  remetente_id :: int
  destinatario_id :: int
  texto :: string
  enviado_em :: int

text \<open>
  The state of the store: the rows of each table, in the order of their insertion, and
  the next value of the sequence behind each \<open>SERIAL\<close> column. The stored data is the
  multiset of the rows; no answer of a query depends on the order of the lists but
  through the plan of the executor (see \<open>order_by\<close> below).
\<close>

record banco =
  usuarios :: "usuario list"
  mensagens :: "mensagem list"
  usuarios_id_seq :: int
  mensagens_id_seq :: int

datatype pg_error =
    invalid_text_representation
  | numeric_value_out_of_range
  | character_not_in_repertoire
  | sequence_generator_limit_exceeded
  | string_data_right_truncation
  | not_null_violation
  | unique_violation
  | foreign_key_violation

text \<open>The answer of a route: \<open>res.json(x)\<close> or \<open>res.status(s).json({ erro: e })\<close>.\<close>

datatype 'a resposta = Ok200 'a | Falha nat string

subsection \<open>Query parameters\<close>

text \<open>
  The driver turns each JavaScript parameter into text (or into SQL \<open>NULL\<close>, here
  \<open>None\<close>), and the store reads the text in the type of the column it is compared
  with or assigned to. The store's reader of integers (\<open>int4in\<close>) and the driver's
  rendering of arrays, of objects and of the numbers that JavaScript writes with an
  exponent (from \<open>10^21\<close> on) are parameters of the model.
\<close>

type_synonym int4in = "string \<Rightarrow> pg_error + int"

fun digitos :: "nat \<Rightarrow> string" where
  "digitos n =
     (if n < 10 then [''0123456789'' ! n] else digitos (n div 10) @ [''0123456789'' ! (n mod 10)])"

declare digitos.simps [simp del]

definition decimal :: "int \<Rightarrow> string" where
  "decimal i = (if i < 0 then CHR ''-'' # digitos (nat (- i)) else digitos (nat i))"

fun prepareValue :: "(json \<Rightarrow> string) \<Rightarrow> json option \<Rightarrow> string option" where
  "prepareValue composto None = None"
| "prepareValue composto (Some JNull) = None"
| "prepareValue composto (Some (JBool b)) = Some (if b then ''true'' else ''false'')"
| "prepareValue composto (Some (JNum n)) =
     Some (if \<bar>n\<bar> < 10 ^ 21 then decimal n else composto (JNum n))"
| "prepareValue composto (Some (JStr s)) = Some s"
| "prepareValue composto (Some v) = Some (composto v)"

text \<open>
  A parameter of an \<open>INT\<close> column. A JavaScript number is written in decimal by the
  driver and read back by the store, which accepts it when it fits 32 bits.
\<close>

fun param_int :: "int4in \<Rightarrow> (json \<Rightarrow> string) \<Rightarrow> json option \<Rightarrow> pg_error + int option" where
  "param_int rd composto (Some (JNum n)) =
     (if - 2147483648 \<le> n \<and> n \<le> 2147483647 then Inr (Some n) else Inl numeric_value_out_of_range)"
| "param_int rd composto v =
     (case prepareValue composto v of
        None \<Rightarrow> Inr None
      | Some s \<Rightarrow> (case rd s of Inl e \<Rightarrow> Inl e | Inr n \<Rightarrow> Inr (Some n)))"

text \<open>
  A parameter of a \<open>TEXT\<close> or \<open>VARCHAR\<close> column: the store accepts any text without
  the character of code 0.
\<close>

definition param_text :: "string option \<Rightarrow> pg_error + string option" where
  "param_text v =
     (case v of
        None \<Rightarrow> Inr None
      | Some s \<Rightarrow> if CHR 0x00 \<in> set s then Inl character_not_in_repertoire else Inr (Some s))"

text \<open>
  Assignment to a \<open>VARCHAR(n)\<close> column: a longer string is an error, unless the excess
  is made of spaces only, which are cut off. \<open>NULL\<close> stays \<open>NULL\<close>.
\<close>

definition varchar :: "nat \<Rightarrow> string option \<Rightarrow> pg_error + string option" where
  "varchar n v =
     (case v of
        None \<Rightarrow> Inr None
      | Some s \<Rightarrow>
          if length s \<le> n then Inr (Some s)
          else if list_all (\<lambda>c. c = CHR '' '') (drop n s) then Inr (Some (take n s))
          else Inl string_data_right_truncation)"

subsection \<open>ORDER BY\<close>

text \<open>
  \<open>ORDER BY\<close> answers with the rows in ascending order of the key and leaves the order
  of rows with equal keys to the executor: to its plan, the physical order of the
  tables, its sorting method. The choice is the parameter \<open>plano\<close>, which proposes an
  arrangement of the rows that reach the sort; the rows are then sorted by the key,
  rows with equal keys staying as arranged. A proposal that is not a rearrangement of
  the rows is not taken. Every sorted arrangement of the rows is the answer under some
  \<open>plano\<close> (lemma \<open>order_by_completo\<close>), and theorems hold for every \<open>plano\<close>.
\<close>

definition entrega :: "('a list \<Rightarrow> 'a list) \<Rightarrow> 'a list \<Rightarrow> 'a list" where
  "entrega plano xs = (if mset (plano xs) = mset xs then plano xs else xs)"

definition order_by :: "('a list \<Rightarrow> 'a list) \<Rightarrow> ('a \<Rightarrow> 'k::linorder) \<Rightarrow> 'a list \<Rightarrow> 'a list" where
  "order_by plano chave xs = sort_key chave (entrega plano xs)"

subsection \<open>INSERT INTO usuarios\<close>

text \<open>
  \<open>INSERT INTO usuarios (nome, telefone) VALUES ($1, $2) RETURNING *\<close> at the time
  \<open>agora\<close>, the parameters already read. The two strings are fitted to their columns
  first; a value that is too long ends the statement before the sequence is touched.
  Then the \<open>SERIAL\<close> column takes the next value of its sequence, which ends at the
  largest \<open>INT\<close>; the sequence is advanced before the constraints are checked, and a
  failed statement does not give the value back. Then \<open>NOT NULL\<close> is checked, then the
  primary key and \<open>UNIQUE\<close>.
\<close>

definition inserir_usuario ::
  "banco \<Rightarrow> int \<Rightarrow> string option \<Rightarrow> string option \<Rightarrow> (pg_error + usuario) \<times> banco" where
  "inserir_usuario db agora n t =
     (case varchar 100 n of
        Inl e \<Rightarrow> (Inl e, db)
      | Inr n1 \<Rightarrow>
         (case varchar 20 t of
            Inl e \<Rightarrow> (Inl e, db)
          | Inr t1 \<Rightarrow>
             if usuarios_id_seq db > 2147483647 then (Inl sequence_generator_limit_exceeded, db)
             else
              (let db' = db\<lparr>usuarios_id_seq := usuarios_id_seq db + 1\<rparr> in
               case (n1, t1) of
                 (Some n2, Some t2) \<Rightarrow>
                   (let u = \<lparr>u_id = usuarios_id_seq db, nome = n2, telefone = t2,
                              criado_em = agora\<rparr> in
                    if u_id u \<in> set (map u_id (usuarios db)) then (Inl unique_violation, db')
                    else if telefone u \<in> set (map telefone (usuarios db))
                      then (Inl unique_violation, db')
                    else (Inr u, db'\<lparr>usuarios := usuarios db @ [u]\<rparr>))
               | _ \<Rightarrow> (Inl not_null_violation, db'))))"

text \<open>
  The route \<open>POST /usuarios\<close>; the request body after destructuring, and the text of
  the error.
\<close>

record corpo_usuario =
  req_nome :: "json option"
  req_telefone :: "json option"

definition erro_usuario :: string where
  "erro_usuario = ''Usu'' @ [CHR 0xE1] @ ''rio j'' @ [CHR 0xE1] @ '' existe ou erro ao criar''"

definition post_usuarios ::
  "(json \<Rightarrow> string) \<Rightarrow> banco \<Rightarrow> int \<Rightarrow> corpo_usuario \<Rightarrow> usuario resposta \<times> banco" where
  "post_usuarios composto db agora body =
     (case param_text (prepareValue composto (req_nome body)) of
        Inl e \<Rightarrow> (Falha 400 erro_usuario, db)
      | Inr n \<Rightarrow>
         (case param_text (prepareValue composto (req_telefone body)) of
            Inl e \<Rightarrow> (Falha 400 erro_usuario, db)
          | Inr t \<Rightarrow>
             (case inserir_usuario db agora n t of
                (Inl e, db') \<Rightarrow> (Falha 400 erro_usuario, db')
              | (Inr u, db') \<Rightarrow> (Ok200 u, db'))))"

text \<open>
  The route \<open>GET /usuarios\<close>: \<open>SELECT * FROM usuarios ORDER BY nome\<close>. Names are
  compared character by character, by their codes (the collation \<open>C\<close>).
\<close>

definition get_usuarios :: "(usuario list \<Rightarrow> usuario list) \<Rightarrow> banco \<Rightarrow> usuario list resposta" where
  "get_usuarios plano db = Ok200 (order_by plano nome (usuarios db))"

subsection \<open>INSERT INTO mensagens\<close>

text \<open>
  \<open>INSERT INTO mensagens (remetente_id, destinatario_id, texto) VALUES ($1, $2, $3)
  RETURNING *\<close> at the time \<open>agora\<close>, the parameters already read. \<open>NOT NULL\<close> is
  checked first, then the primary key, then the two foreign keys.
\<close>

definition inserir_mensagem ::
  "banco \<Rightarrow> int \<Rightarrow> int option \<Rightarrow> int option \<Rightarrow> string option \<Rightarrow> (pg_error + mensagem) \<times> banco" where
  "inserir_mensagem db agora r d t =
     (if mensagens_id_seq db > 2147483647 then (Inl sequence_generator_limit_exceeded, db)
      else
       (let db' = db\<lparr>mensagens_id_seq := mensagens_id_seq db + 1\<rparr> in
        case (r, d, t) of
          (Some r0, Some d0, Some t0) \<Rightarrow>
            (let m = \<lparr>m_id = mensagens_id_seq db, remetente_id = r0, destinatario_id = d0,
                       texto = t0, enviado_em = agora\<rparr> in
             if m_id m \<in> set (map m_id (mensagens db)) then (Inl unique_violation, db')
             else if remetente_id m \<notin> set (map u_id (usuarios db))
               then (Inl foreign_key_violation, db')
             else if destinatario_id m \<notin> set (map u_id (usuarios db))
               then (Inl foreign_key_violation, db')
             else (Inr m, db'\<lparr>mensagens := mensagens db @ [m]\<rparr>))
        | _ \<Rightarrow> (Inl not_null_violation, db')))"

subsection \<open>The conversation between two users\<close>

text \<open>
  A row of the query of \<open>GET /mensagens/:usuario1_id/:usuario2_id\<close>: \<open>m.*\<close> and the
  two names.
\<close>

record linha_mensagem =
  msg :: mensagem
  remetente_nome :: string
  destinatario_nome :: string

text \<open>
  \<open>FROM mensagens m JOIN usuarios u1 ON m.remetente_id = u1.id
  JOIN usuarios u2 ON m.destinatario_id = u2.id WHERE ... ORDER BY m.enviado_em ASC\<close>
\<close>

definition conversa ::
  "(linha_mensagem list \<Rightarrow> linha_mensagem list) \<Rightarrow> banco \<Rightarrow> int \<Rightarrow> int \<Rightarrow> linha_mensagem list" where
  "conversa plano db p1 p2 =
     order_by plano (\<lambda>l. enviado_em (msg l))
       [\<lparr>msg = m, remetente_nome = nome u1, destinatario_nome = nome u2\<rparr>.
          m \<leftarrow> mensagens db,
          u1 \<leftarrow> usuarios db, remetente_id m = u_id u1,
          u2 \<leftarrow> usuarios db, destinatario_id m = u_id u2,
          (remetente_id m = p1 \<and> destinatario_id m = p2)
          \<or> (remetente_id m = p2 \<and> destinatario_id m = p1)]"

definition get_mensagens ::
  "int4in \<Rightarrow> (linha_mensagem list \<Rightarrow> linha_mensagem list) \<Rightarrow> banco \<Rightarrow> string \<Rightarrow> string
   \<Rightarrow> linha_mensagem list resposta" where
  "get_mensagens rd plano db usuario1_id usuario2_id =
     (case rd usuario1_id of
        Inl e \<Rightarrow> Falha 500 ''Erro ao buscar mensagens''
      | Inr p1 \<Rightarrow>
         (case rd usuario2_id of
            Inl e \<Rightarrow> Falha 500 ''Erro ao buscar mensagens''
          | Inr p2 \<Rightarrow> Ok200 (conversa plano db p1 p2)))"

subsection \<open>The last message of each conversation of a user\<close>

record linha_conversa =
  outro_usuario_id :: int
  outro_usuario_nome :: string
  ultima_mensagem :: string
  c_enviado_em :: int

text \<open>The subquery \<open>sub\<close>, with its own \<open>ORDER BY m.enviado_em DESC\<close>.\<close>

definition sub ::
  "(linha_conversa list \<Rightarrow> linha_conversa list) \<Rightarrow> banco \<Rightarrow> int \<Rightarrow> linha_conversa list" where
  "sub plano db p1 =
     order_by plano (\<lambda>l. - c_enviado_em l)
       [\<lparr>outro_usuario_id = (if remetente_id m = p1 then destinatario_id m else remetente_id m),
         outro_usuario_nome = (if remetente_id m = p1 then nome u2 else nome u1),
         ultima_mensagem = texto m,
         c_enviado_em = enviado_em m\<rparr>.
          m \<leftarrow> mensagens db,
          u1 \<leftarrow> usuarios db, remetente_id m = u_id u1,
          u2 \<leftarrow> usuarios db, destinatario_id m = u_id u2,
          remetente_id m = p1 \<or> destinatario_id m = p1]"

text \<open>
  \<open>SELECT DISTINCT ON (k)\<close> over sorted rows keeps the first row of each run of rows
  with the same \<open>k\<close>. Which of the rows of a run with equal sort keys comes first is the
  choice that \<open>order_by\<close> leaves to the plan.
\<close>

fun distinct_on :: "('a \<Rightarrow> 'k) \<Rightarrow> 'a list \<Rightarrow> 'a list" where
  "distinct_on k [] = []"
| "distinct_on k [x] = [x]"
| "distinct_on k (x # y # ys) =
     (if k x = k y then distinct_on k (x # ys) else x # distinct_on k (y # ys))"

text \<open>
  \<open>SELECT DISTINCT ON (outro_usuario_id) ... FROM (...) sub
  ORDER BY outro_usuario_id, enviado_em DESC\<close>
\<close>

definition conversas ::
  "(linha_conversa list \<Rightarrow> linha_conversa list) \<Rightarrow> banco \<Rightarrow> int \<Rightarrow> linha_conversa list" where
  "conversas plano db p1 =
     distinct_on outro_usuario_id
       (order_by plano (\<lambda>l. (outro_usuario_id l, - c_enviado_em l)) (sub plano db p1))"

definition get_conversas ::
  "int4in \<Rightarrow> (linha_conversa list \<Rightarrow> linha_conversa list) \<Rightarrow> banco \<Rightarrow> string
   \<Rightarrow> linha_conversa list resposta" where
  "get_conversas rd plano db usuario_id =
     (case rd usuario_id of
        Inl e \<Rightarrow> Falha 500 ''Erro ao buscar conversas''
      | Inr p1 \<Rightarrow> Ok200 (conversas plano db p1))"

section \<open>The WebSocket server\<close>

datatype js_error = SyntaxError | TypeError

text \<open>
  A JavaScript value at run time, as far as the keys of the \<open>Map\<close> need it. An array or
  an object is a reference, equal only to itself; \<open>Map\<close> and \<open>===\<close> compare the other
  values by type and content, which is the equality of this datatype.
\<close>

datatype jsval = Undefined | Null | Bool bool | Num int | Str string | Ref nat

datatype ready_state = CONNECTING | OPEN | CLOSING | CLOSED

text \<open>A connection of the transport: its state and the frames handed to \<open>send\<close> so far.\<close>

record socket =
  readyState :: ready_state
  enviados :: "string list"

type_synonym ws = nat

text \<open>
  \<open>conexoes\<close> is the \<open>Map\<close> of the program, as the list of its entries in insertion
  order; \<open>prox_ref\<close> is the first address that no object has yet.
\<close>

record servidor =
  conexoes :: "(jsval \<times> ws) list"
  sockets :: "ws \<Rightarrow> socket"
  prox_ref :: nat

text \<open>
  Reading the property \<open>tipo\<close> or \<open>usuario_id\<close> of the parsed frame: a \<open>TypeError\<close> on
  \<open>null\<close>, the member of an object (the last one of that name), \<open>undefined\<close> else.
\<close>

fun membro :: "json \<Rightarrow> string \<Rightarrow> js_error + json option" where
  "membro JNull k = Inl TypeError"
| "membro (JObj kvs) k = Inr (map_of (rev kvs) k)"
| "membro v k = Inr None"

fun valor :: "nat \<Rightarrow> json option \<Rightarrow> jsval" where
  "valor a None = Undefined"
| "valor a (Some JNull) = Null"
| "valor a (Some (JBool b)) = Bool b"
| "valor a (Some (JNum n)) = Num n"
| "valor a (Some (JStr s)) = Str s"
| "valor a (Some v) = Ref a"

text \<open>
  \<open>ws.on('message', ...)\<close> of the connection \<open>w\<close>. \<open>JSON.parse\<close> is a parameter; what
  it throws leaves the handler, which has no \<open>try\<close>.
\<close>

definition on_message ::
  "(string \<Rightarrow> js_error + json) \<Rightarrow> ws \<Rightarrow> string \<Rightarrow> servidor \<Rightarrow> js_error + servidor" where
  "on_message JSON_parse w mensagem s =
     (case JSON_parse mensagem of
        Inl e \<Rightarrow> Inl e
      | Inr dados \<Rightarrow>
         (case membro dados ''tipo'' of
            Inl e \<Rightarrow> Inl e
          | Inr tipo \<Rightarrow>
             if tipo = Some (JStr ''registrar'') then
               (case membro dados ''usuario_id'' of
                  Inl e \<Rightarrow> Inl e
                | Inr usuario_id \<Rightarrow>
                    Inr (s\<lparr>conexoes := AList.update (valor (prox_ref s) usuario_id) w (conexoes s),
                           prox_ref := Suc (prox_ref s)\<rparr>))
             else Inr s))"

text \<open>
  \<open>ws.on('close', ...)\<close> of the connection \<open>w\<close>: the loop over the entries of the map,
  deleting from the map as it goes.
\<close>

fun remover :: "ws \<Rightarrow> (jsval \<times> ws) list \<Rightarrow> (jsval \<times> ws) list \<Rightarrow> (jsval \<times> ws) list" where
  "remover w [] c = c"
| "remover w ((usuario_id, socket) # es) c =
     (if socket = w then remover w es (AList.delete usuario_id c) else remover w es c)"

definition on_close :: "ws \<Rightarrow> servidor \<Rightarrow> servidor" where
  "on_close w s = s\<lparr>conexoes := remover w (conexoes s) (conexoes s)\<rparr>"

text \<open>
  \<open>notificarNovaMensagem\<close>. The row that the store returned holds \<open>destinatario_id\<close> as
  a JavaScript number. \<open>JSON.stringify\<close> of a row is a parameter.
\<close>

definition notificarNovaMensagem :: "(mensagem \<Rightarrow> string) \<Rightarrow> servidor \<Rightarrow> mensagem \<Rightarrow> servidor" where
  "notificarNovaMensagem JSON_stringify s mensagem =
     (case map_of (conexoes s) (Num (destinatario_id mensagem)) of
        None \<Rightarrow> s
      | Some wsDestinatario \<Rightarrow>
          if readyState (sockets s wsDestinatario) = OPEN then
            s\<lparr>sockets := (sockets s)
                 (wsDestinatario := (sockets s wsDestinatario)
                    \<lparr>enviados := enviados (sockets s wsDestinatario) @ [JSON_stringify mensagem]\<rparr>)\<rparr>
          else s)"

subsection \<open>The route POST /mensagens\<close>

record corpo_mensagem =
  req_remetente_id :: "json option"
  req_destinatario_id :: "json option"
  req_texto :: "json option"

definition post_mensagens ::
  "int4in \<Rightarrow> (json \<Rightarrow> string) \<Rightarrow> (mensagem \<Rightarrow> string) \<Rightarrow> banco \<Rightarrow> servidor \<Rightarrow> int \<Rightarrow> corpo_mensagem
   \<Rightarrow> mensagem resposta \<times> banco \<times> servidor" where
  "post_mensagens rd composto JSON_stringify db s agora body =
     (case param_int rd composto (req_remetente_id body) of
        Inl e \<Rightarrow> (Falha 400 ''Erro ao enviar mensagem'', db, s)
      | Inr r \<Rightarrow>
         (case param_int rd composto (req_destinatario_id body) of
            Inl e \<Rightarrow> (Falha 400 ''Erro ao enviar mensagem'', db, s)
          | Inr d \<Rightarrow>
             (case param_text (prepareValue composto (req_texto body)) of
                Inl e \<Rightarrow> (Falha 400 ''Erro ao enviar mensagem'', db, s)
              | Inr t \<Rightarrow>
                 (case inserir_mensagem db agora r d t of
                    (Inl e, db') \<Rightarrow> (Falha 400 ''Erro ao enviar mensagem'', db', s)
                  | (Inr mensagem, db') \<Rightarrow>
                      (Ok200 mensagem, db', notificarNovaMensagem JSON_stringify s mensagem)))))"

section \<open>Integrity of the store\<close>

text \<open>
  What the constraints of the tables and the sequences maintain: primary keys and
  \<open>telefone\<close> are unique, both ends of a message are users, and no row has an id that
  its sequence has yet to give out.
\<close>

definition integro :: "banco \<Rightarrow> bool" where
  "integro db \<longleftrightarrow>
     distinct (map u_id (usuarios db)) \<and>
     distinct (map telefone (usuarios db)) \<and>
     distinct (map m_id (mensagens db)) \<and>
     (\<forall>m \<in> set (mensagens db).
        remetente_id m \<in> set (map u_id (usuarios db)) \<and>
        destinatario_id m \<in> set (map u_id (usuarios db))) \<and>
     (\<forall>u \<in> set (usuarios db). u_id u < usuarios_id_seq db) \<and>
     (\<forall>m \<in> set (mensagens db). m_id m < mensagens_id_seq db)"

section \<open>Notions of the statements\<close>

text \<open>
  A message has the user \<open>p1\<close> at one end; its other end, seen from \<open>p1\<close>; a message
  went between the users \<open>a\<close> and \<open>b\<close>.
\<close>

definition envolve :: "int \<Rightarrow> mensagem \<Rightarrow> bool" where
  "envolve p1 m \<longleftrightarrow> remetente_id m = p1 \<or> destinatario_id m = p1"

definition outro :: "int \<Rightarrow> mensagem \<Rightarrow> int" where
  "outro p1 m = (if remetente_id m = p1 then destinatario_id m else remetente_id m)"

definition entre :: "int \<Rightarrow> int \<Rightarrow> mensagem \<Rightarrow> bool" where
  "entre a b m \<longleftrightarrow>
     (remetente_id m = a \<and> destinatario_id m = b) \<or> (remetente_id m = b \<and> destinatario_id m = a)"

text \<open>
  No two messages of \<open>p1\<close> with the same counterparty carry the same time.
\<close>

definition sem_empates :: "int \<Rightarrow> mensagem list \<Rightarrow> bool" where
  "sem_empates p1 ms \<longleftrightarrow>
     (\<forall>m \<in> set ms. \<forall>m' \<in> set ms.
        envolve p1 m \<and> envolve p1 m' \<and> outro p1 m = outro p1 m' \<and> enviado_em m = enviado_em m'
        \<longrightarrow> m = m')"

text \<open>No two messages between \<open>a\<close> and \<open>b\<close> carry the same time.\<close>

definition sem_empates_entre :: "int \<Rightarrow> int \<Rightarrow> mensagem list \<Rightarrow> bool" where
  "sem_empates_entre a b ms \<longleftrightarrow>
     (\<forall>m \<in> set ms. \<forall>m' \<in> set ms.
        entre a b m \<and> entre a b m' \<and> enviado_em m = enviado_em m' \<longrightarrow> m = m')"

text \<open>The parameter \<open>v\<close> is read as the id of a user of the store.\<close>

definition referencia :: "int4in \<Rightarrow> (json \<Rightarrow> string) \<Rightarrow> banco \<Rightarrow> json option \<Rightarrow> bool" where
  "referencia rd composto db v =
     (case param_int rd composto v of
        Inr (Some k) \<Rightarrow> k \<in> set (map u_id (usuarios db))
      | _ \<Rightarrow> False)"

text \<open>The store accepts \<open>v\<close> as the text of a message: it is not \<open>NULL\<close> and is valid text.\<close>

definition texto_aceito :: "(json \<Rightarrow> string) \<Rightarrow> json option \<Rightarrow> bool" where
  "texto_aceito composto v =
     (case param_text (prepareValue composto v) of Inr (Some t) \<Rightarrow> True | _ \<Rightarrow> False)"

text \<open>The name that the id \<open>k\<close> refers to in a table of users.\<close>

definition nome_de :: "usuario list \<Rightarrow> int \<Rightarrow> string" where
  "nome_de us k = (case find (\<lambda>u. u_id u = k) us of None \<Rightarrow> [] | Some u \<Rightarrow> nome u)"

text \<open>The row that the summary query forms from a message of \<open>p1\<close>, when the store is intact.\<close>

definition linha_de :: "usuario list \<Rightarrow> int \<Rightarrow> mensagem \<Rightarrow> linha_conversa" where
  "linha_de us p1 m =
     \<lparr>outro_usuario_id = outro p1 m, outro_usuario_nome = nome_de us (outro p1 m),
      ultima_mensagem = texto m, c_enviado_em = enviado_em m\<rparr>"

text \<open>The row that the conversation query forms from a message, when the store is intact.\<close>

definition linha_mensagem_de :: "usuario list \<Rightarrow> mensagem \<Rightarrow> linha_mensagem" where
  "linha_mensagem_de us m =
     \<lparr>msg = m, remetente_nome = nome_de us (remetente_id m),
      destinatario_nome = nome_de us (destinatario_id m)\<rparr>"

section \<open>A small store and server\<close>

text \<open>
  Three users; Ana (1) wrote to Bob (2) at time 5 and to Cid (3) at time 10, and Bob
  answered Ana at time 7.
\<close>

definition tres_usuarios :: "usuario list" where
  "tres_usuarios =
     [\<lparr>u_id = 1, nome = ''Ana'', telefone = ''555-0001'', criado_em = 1\<rparr>,
      \<lparr>u_id = 2, nome = ''Bob'', telefone = ''555-0002'', criado_em = 2\<rparr>,
      \<lparr>u_id = 3, nome = ''Cid'', telefone = ''555-0003'', criado_em = 3\<rparr>]"

definition banco_exemplo :: banco where
  "banco_exemplo =
     \<lparr>usuarios = tres_usuarios,
      mensagens =
        [\<lparr>m_id = 1, remetente_id = 1, destinatario_id = 2, texto = ''oi'', enviado_em = 5\<rparr>,
         \<lparr>m_id = 2, remetente_id = 2, destinatario_id = 1, texto = ''ola'', enviado_em = 7\<rparr>,
         \<lparr>m_id = 3, remetente_id = 1, destinatario_id = 3, texto = ''bom dia'', enviado_em = 10\<rparr>],
      usuarios_id_seq = 4, mensagens_id_seq = 4\<rparr>"

text \<open>
  The server as it starts, \<open>conexoes = new Map()\<close>; every connection is taken to be
  open, with nothing sent to it yet.
\<close>

definition servidor_inicial :: servidor where
  "servidor_inicial =
     \<lparr>conexoes = [], sockets = (\<lambda>w. \<lparr>readyState = OPEN, enviados = []\<rparr>), prox_ref = 0\<rparr>"

text \<open>
  A stand-in for \<open>JSON.parse\<close> in the examples below: it knows two registration frames
  and \<open>null\<close>, and throws on every other frame, as \<open>JSON.parse\<close> does for instance
  on the empty frame.
\<close>

definition JSON_parse_exemplo :: "string \<Rightarrow> js_error + json" where
  \<open>JSON_parse_exemplo frame =
     (if frame = ''{"tipo":"registrar","usuario_id":5}''
        then Inr (JObj [(''tipo'', JStr ''registrar''), (''usuario_id'', JNum 5)])
      else if frame = ''{"tipo":"registrar","usuario_id":"5"}''
        then Inr (JObj [(''tipo'', JStr ''registrar''), (''usuario_id'', JStr ''5'')])
      else if frame = ''null'' then Inr JNull
      else Inl SyntaxError)\<close>

text \<open>A stand-in for \<open>JSON.stringify\<close> of a row in the examples below.\<close>

definition JSON_stringify_exemplo :: "mensagem \<Rightarrow> string" where
  "JSON_stringify_exemplo m = ''{id:'' @ decimal (m_id m) @ '',...}''"

text \<open>
  A stand-in for the store's reader of integers in the examples below: it reads the
  digits \<open>1\<close> and \<open>2\<close>.
\<close>

definition int4in_exemplo :: int4in where
  "int4in_exemplo s =
     (if s = ''1'' then Inr 1 else if s = ''2'' then Inr 2 else Inl invalid_text_representation)"

text \<open>A stand-in for the driver's rendering of arrays and objects in the examples below.\<close>

definition composto_exemplo :: "json \<Rightarrow> string" where
  "composto_exemplo v = ''{}''"

section \<open>ORDER BY and the plan\<close>

lemma mset_entrega [simp]: "mset (entrega plano xs) = mset xs"
  by (simp add: entrega_def)

lemma set_entrega [simp]: "set (entrega plano xs) = set xs"
  using mset_entrega [of plano xs] by (metis set_mset_mset)

lemma mset_order_by [simp]: "mset (order_by plano k xs) = mset xs"
  by (simp add: order_by_def)

lemma set_order_by [simp]: "set (order_by plano k xs) = set xs"
  by (simp add: order_by_def)

lemma sorted_order_by [simp]: "sorted (map k (order_by plano k xs))"
  by (simp add: order_by_def)

lemma order_by_id: "order_by id k xs = sort_key k xs"
  by (simp add: order_by_def entrega_def)

lemma order_by_rev: "order_by rev k xs = sort_key k (rev xs)"
  by (simp add: order_by_def entrega_def)

lemma order_by_completo:
  assumes "mset ys = mset xs" "sorted (map k ys)"
  shows "order_by (\<lambda>zs. ys) k xs = ys"
  using assms by (simp add: order_by_def entrega_def sort_key_id_if_sorted)

lemma order_by_unico:
  assumes "mset xs = mset ys" "inj_on k (set xs)"
  shows "order_by p k xs = order_by q k ys"
  unfolding order_by_def
proof (rule sort_key_eq_sort_key)
  show "mset (entrega p xs) = mset (entrega q ys)" using assms(1) by simp
  show "inj_on k (set (entrega p xs))" using assms(2) by simp
qed

lemma filter_mset_unico:
  assumes "mset ys = mset xs" "filter P xs = [u]"
  shows "filter P ys = [u]"
proof -
  have "mset (filter P ys) = mset (filter P xs)" using assms(1) by simp
  with assms(2) have "mset (filter P ys) = {#u#}" by simp
  then show ?thesis by (metis mset_single_iff_right mset.simps(1) mset.simps(2))
qed

section \<open>Joins over an intact store\<close>

lemma join_um:
  "distinct (map u_id us) \<Longrightarrow> u \<in> set us \<Longrightarrow> u_id u = k \<Longrightarrow>
   concat (map (\<lambda>v. if k = u_id v then g v else []) us) = g u"
proof (induction us)
  case Nil
  then show ?case by simp
next
  case (Cons a us)
  show ?case
  proof (cases "a = u")
    case True
    with Cons.prems have "\<forall>v \<in> set us. u_id v \<noteq> k" by (auto simp: image_iff)
    then have "concat (map (\<lambda>v. if k = u_id v then g v else []) us) = []" by (induction us) auto
    with True Cons.prems show ?thesis by simp
  next
    case False
    with Cons.prems have "u \<in> set us" "u_id a \<noteq> k" by auto
    with Cons show ?thesis by simp
  qed
qed

lemma nome_de_eq: "distinct (map u_id us) \<Longrightarrow> u \<in> set us \<Longrightarrow> nome_de us (u_id u) = nome u"
  by (induction us) (auto simp: nome_de_def image_iff)

lemma nome_de_existe:
  "k \<in> set (map u_id us) \<Longrightarrow> \<exists>u \<in> set us. u_id u = k \<and> nome u = nome_de us k"
  by (induction us) (auto simp: nome_de_def)

lemma nome_de_conjunto:
  assumes "distinct (map u_id us)" "distinct (map u_id us')" "set us = set us'"
    and "k \<in> set (map u_id us)"
  shows "nome_de us k = nome_de us' k"
proof -
  from assms(4) obtain u where u: "u \<in> set us" "u_id u = k" by auto
  with assms(3) have "u \<in> set us'" by simp
  from nome_de_eq [OF assms(1) u(1)] nome_de_eq [OF assms(2) this] u(2)
  show ?thesis by simp
qed

lemma concat_filtro: "concat (map (\<lambda>m. if P m then [f m] else []) ms) = map f (filter P ms)"
  by (induction ms) auto

lemma sub_linha_de:
  assumes "integro db"
  shows "sub plano db p1 =
     order_by plano (\<lambda>l. - c_enviado_em l)
       (map (linha_de (usuarios db) p1) (filter (envolve p1) (mensagens db)))"
proof -
  let ?us = "usuarios db"
  have d: "distinct (map u_id ?us)" using assms by (simp add: integro_def)
  have "\<And>m. m \<in> set (mensagens db) \<Longrightarrow>
     concat (map (\<lambda>u1. if remetente_id m = u_id u1 then
        concat (map (\<lambda>u2. if destinatario_id m = u_id u2 then
            if remetente_id m = p1 \<or> destinatario_id m = p1 then
             [\<lparr>outro_usuario_id = (if remetente_id m = p1 then destinatario_id m else remetente_id m),
               outro_usuario_nome = (if remetente_id m = p1 then nome u2 else nome u1),
               ultima_mensagem = texto m, c_enviado_em = enviado_em m\<rparr>] else [] else []) ?us) else []) ?us)
     = (if envolve p1 m then [linha_de ?us p1 m] else [])"
  proof -
    fix m assume m: "m \<in> set (mensagens db)"
    with assms obtain u1 u2 where u: "u1 \<in> set ?us" "u_id u1 = remetente_id m"
        "u2 \<in> set ?us" "u_id u2 = destinatario_id m"
      by (auto simp: integro_def)
    show "?thesis m"
      apply (subst join_um [OF d u(1) u(2)])
      apply (subst join_um [OF d u(3) u(4)])
      using nome_de_eq [OF d u(1)] nome_de_eq [OF d u(3)] u(2) u(4)
      apply (auto simp: envolve_def outro_def linha_de_def)
      done
  qed
  then show ?thesis
    unfolding sub_def
    by (simp add: concat_filtro [symmetric] cong: map_cong)
qed

lemma conversa_linhas:
  assumes "integro db"
  shows "conversa plano db a b =
     order_by plano (\<lambda>l. enviado_em (msg l))
       (map (linha_mensagem_de (usuarios db)) (filter (entre a b) (mensagens db)))"
proof -
  let ?us = "usuarios db"
  have d: "distinct (map u_id ?us)" using assms by (simp add: integro_def)
  have "\<And>m. m \<in> set (mensagens db) \<Longrightarrow>
     concat (map (\<lambda>u1. if remetente_id m = u_id u1 then
        concat (map (\<lambda>u2. if destinatario_id m = u_id u2 then
            if remetente_id m = a \<and> destinatario_id m = b \<or>
               remetente_id m = b \<and> destinatario_id m = a then
             [\<lparr>msg = m, remetente_nome = nome u1, destinatario_nome = nome u2\<rparr>]
            else [] else []) ?us) else []) ?us)
     = (if entre a b m then [linha_mensagem_de ?us m] else [])"
  proof -
    fix m assume m: "m \<in> set (mensagens db)"
    with assms obtain u1 u2 where u: "u1 \<in> set ?us" "u_id u1 = remetente_id m"
        "u2 \<in> set ?us" "u_id u2 = destinatario_id m"
      by (auto simp: integro_def)
    show "?thesis m"
      apply (subst join_um [OF d u(1) u(2)])
      apply (subst join_um [OF d u(3) u(4)])
      using nome_de_eq [OF d u(1)] nome_de_eq [OF d u(3)] u(2) u(4)
      apply (simp add: entre_def linha_mensagem_de_def)
      done
  qed
  then show ?thesis
    unfolding conversa_def
    by (simp add: concat_filtro [symmetric] cong: map_cong)
qed

lemma integro_banco_exemplo: "integro banco_exemplo"
  by (simp add: integro_def banco_exemplo_def tres_usuarios_def)

section \<open>DISTINCT ON over sorted rows\<close>

lemma set_distinct_on_subset: "set (distinct_on k xs) \<subseteq> set xs"
  by (induction k xs rule: distinct_on.induct) auto

lemma chaves_distinct_on: "k ` set (distinct_on k xs) = k ` set xs"
  by (induction k xs rule: distinct_on.induct) auto

lemma distinct_on_crescente:
  "sorted (map k xs) \<Longrightarrow> sorted_wrt (<) (map k (distinct_on k xs))"
proof (induction k xs rule: distinct_on.induct)
  case (3 k x y ys)
  show ?case
  proof (cases "k x = k y")
    case True
    with 3 show ?thesis by simp
  next
    case False
    from "3.prems" have s: "sorted (map k (y # ys))" and le: "\<forall>z \<in> set (y # ys). k x \<le> k z"
      by auto
    have "\<forall>z \<in> set (distinct_on k (y # ys)). k x < k z"
    proof
      fix z assume "z \<in> set (distinct_on k (y # ys))"
      then have z: "z \<in> set (y # ys)" using set_distinct_on_subset by fastforce
      from "3.prems" have "k y \<le> k z" using z by auto
      moreover from "3.prems" False have "k x < k y" by auto
      ultimately show "k x < k z" by simp
    qed
    with False "3.IH"(2) s show ?thesis by simp
  qed
qed simp_all

lemma ordenado_fst: "sorted (map (\<lambda>l. (k l, g l)) xs) \<Longrightarrow> sorted (map k xs)"
  by (induction xs) (auto simp: less_eq_prod_def)

lemma distinct_on_primeiro:
  "sorted (map (\<lambda>l. (k l, g l)) xs) \<Longrightarrow> l \<in> set (distinct_on k xs) \<Longrightarrow> l' \<in> set xs \<Longrightarrow>
   k l' = k l \<Longrightarrow> g l \<le> g l'"
proof (induction k xs arbitrary: l l' rule: distinct_on.induct)
  case (1 k)
  then show ?case by simp
next
  case (2 k x)
  then show ?case by simp
next
  case (3 k x y ys)
  from "3.prems"(1) have sxs: "sorted (map (\<lambda>l. (k l, g l)) (x # ys))"
    and sys: "sorted (map (\<lambda>l. (k l, g l)) (y # ys))"
    and xy: "(k x, g x) \<le> (k y, g y)"
    and xz: "\<forall>z \<in> set ys. (k x, g x) \<le> (k z, g z)"
    by auto
  show ?case
  proof (cases "k x = k y")
    case True
    with "3.prems" have l: "l \<in> set (distinct_on k (x # ys))" by simp
    show ?thesis
    proof (cases "l' = y")
      case True
      have "g l \<le> g x" using "3.IH"(1) [OF \<open>k x = k y\<close> sxs l, of x] True "3.prems"(4) \<open>k x = k y\<close>
        by simp
      moreover have "g x \<le> g y" using xy \<open>k x = k y\<close> by (simp add: less_eq_prod_def)
      ultimately show ?thesis using True by simp
    next
      case False
      with "3.prems"(3) have "l' \<in> set (x # ys)" by auto
      then show ?thesis using "3.IH"(1) [OF \<open>k x = k y\<close> sxs l] "3.prems"(4) by simp
    qed
  next
    case False
    with "3.prems" have l: "l = x \<or> l \<in> set (distinct_on k (y # ys))" by simp
    then show ?thesis
    proof
      assume "l = x"
      then show ?thesis using "3.prems"(3,4) xy xz by (auto simp: less_eq_prod_def)
    next
      assume l2: "l \<in> set (distinct_on k (y # ys))"
      then have lin: "l \<in> set (y # ys)" using set_distinct_on_subset by fastforce
      show ?thesis
      proof (cases "l' = x")
        case True
        have "k x \<le> k y" using xy by (auto simp: less_eq_prod_def)
        moreover have "k y \<le> k l" using sys lin by (auto simp: less_eq_prod_def)
        ultimately have "k x = k y" using True "3.prems"(4) by simp
        with False show ?thesis by simp
      next
        case False
        with "3.prems"(3) have "l' \<in> set (y # ys)" by auto
        then show ?thesis using "3.IH"(2) [OF \<open>k x \<noteq> k y\<close> sys l2] "3.prems"(4) by simp
      qed
    qed
  qed
qed

lemma distinct_on_minimo:
  assumes "sorted (map (\<lambda>l. (k l, g l)) xs)"
  shows "(\<lambda>l. (k l, g l)) ` set (distinct_on k xs) =
     {(c, t). (c, t) \<in> (\<lambda>l. (k l, g l)) ` set xs \<and>
        (\<forall>t'. (c, t') \<in> (\<lambda>l. (k l, g l)) ` set xs \<longrightarrow> t \<le> t')}"
proof (intro set_eqI iffI)
  fix p assume "p \<in> (\<lambda>l. (k l, g l)) ` set (distinct_on k xs)"
  then obtain l where l: "l \<in> set (distinct_on k xs)" "p = (k l, g l)" by auto
  then have lx: "l \<in> set xs" using set_distinct_on_subset by fastforce
  have "g l \<le> t'" if "(k l, t') \<in> (\<lambda>l. (k l, g l)) ` set xs" for t'
  proof -
    from that obtain l' where "l' \<in> set xs" "k l' = k l" "g l' = t'" by auto
    with distinct_on_primeiro [OF assms l(1)] show ?thesis by blast
  qed
  with l lx show "p \<in> {(c, t). (c, t) \<in> (\<lambda>l. (k l, g l)) ` set xs \<and>
        (\<forall>t'. (c, t') \<in> (\<lambda>l. (k l, g l)) ` set xs \<longrightarrow> t \<le> t')}"
    by auto
next
  fix p assume p: "p \<in> {(c, t). (c, t) \<in> (\<lambda>l. (k l, g l)) ` set xs \<and>
        (\<forall>t'. (c, t') \<in> (\<lambda>l. (k l, g l)) ` set xs \<longrightarrow> t \<le> t')}"
  then obtain l where l: "l \<in> set xs" "p = (k l, g l)"
    and mn: "\<forall>t'. (k l, t') \<in> (\<lambda>l. (k l, g l)) ` set xs \<longrightarrow> g l \<le> t'"
    by auto
  from l(1) have "k l \<in> k ` set (distinct_on k xs)" by (simp add: chaves_distinct_on)
  then obtain l0 where l0: "l0 \<in> set (distinct_on k xs)" "k l0 = k l" by auto
  then have "l0 \<in> set xs" using set_distinct_on_subset by fastforce
  then have "(k l0, g l0) \<in> (\<lambda>l. (k l, g l)) ` set xs" by (rule imageI)
  with l0(2) have "(k l, g l0) \<in> (\<lambda>l. (k l, g l)) ` set xs" by simp
  with mn have "g l \<le> g l0" by blast
  moreover from distinct_on_primeiro [OF assms l0(1) l(1)] l0(2) have "g l0 \<le> g l" by simp
  ultimately have "g l0 = g l" by simp
  with l0(2) l(2) have "p = (k l0, g l0)" by simp
  with l0(1) show "p \<in> (\<lambda>l. (k l, g l)) ` set (distinct_on k xs)" by (simp add: image_iff) blast
qed

lemma distinct_on_chaves_determinadas:
  fixes k :: "'a \<Rightarrow> 'k::linorder" and g :: "'a \<Rightarrow> 'g::linorder"
  assumes "sorted (map (\<lambda>l. (k l, g l)) xs)" "sorted (map (\<lambda>l. (k l, g l)) ys)"
    and "(\<lambda>l. (k l, g l)) ` set xs = (\<lambda>l. (k l, g l)) ` set ys"
  shows "map (\<lambda>l. (k l, g l)) (distinct_on k xs) = map (\<lambda>l. (k l, g l)) (distinct_on k ys)"
proof (rule sorted_distinct_set_unique)
  have s: "sorted_wrt (<) (map (\<lambda>l. (k l, g l)) (distinct_on k zs))"
    if "sorted (map (\<lambda>l. (k l, g l)) zs)" for zs
  proof -
    from distinct_on_crescente [OF ordenado_fst [OF that]]
    have "sorted_wrt (\<lambda>a b. k a < k b) (distinct_on k zs)" by (simp add: sorted_wrt_map)
    then have "sorted_wrt (\<lambda>a b. (k a, g a) < (k b, g b)) (distinct_on k zs)"
      by (rule sorted_wrt_mono_rel [rotated]) (simp add: less_prod_def)
    then show ?thesis by (simp add: sorted_wrt_map)
  qed
  from s [OF assms(1)] show "sorted (map (\<lambda>l. (k l, g l)) (distinct_on k xs))"
    "distinct (map (\<lambda>l. (k l, g l)) (distinct_on k xs))"
    by (simp_all add: strict_sorted_iff)
  from s [OF assms(2)] show "sorted (map (\<lambda>l. (k l, g l)) (distinct_on k ys))"
    "distinct (map (\<lambda>l. (k l, g l)) (distinct_on k ys))"
    by (simp_all add: strict_sorted_iff)
  show "set (map (\<lambda>l. (k l, g l)) (distinct_on k xs)) = set (map (\<lambda>l. (k l, g l)) (distinct_on k ys))"
    using distinct_on_minimo [OF assms(1)] distinct_on_minimo [OF assms(2)] assms(3) by simp
qed

section \<open>The summary of the conversations of a user\<close>

lemma entre_iff: "entre p1 c m \<longleftrightarrow> envolve p1 m \<and> outro p1 m = c"
  by (auto simp: entre_def envolve_def outro_def)

lemma set_sub:
  "integro db \<Longrightarrow>
   set (sub plano db p1) = linha_de (usuarios db) p1 ` {m \<in> set (mensagens db). envolve p1 m}"
  by (simp add: sub_linha_de)

lemma conversas_ordenadas:
  "sorted (map (\<lambda>l. (outro_usuario_id l, - c_enviado_em l))
     (order_by plano (\<lambda>l. (outro_usuario_id l, - c_enviado_em l)) (sub plano db p1)))"
  by simp

lemma conversas_por_id_crescente:
  "sorted_wrt (<) (map outro_usuario_id (conversas plano db p1))"
  unfolding conversas_def
  by (rule distinct_on_crescente, rule ordenado_fst [OF conversas_ordenadas])

lemma linha_de_conjunto:
  assumes "integro db1" "integro db2" "set (usuarios db1) = set (usuarios db2)"
    and "m \<in> set (mensagens db1)"
  shows "linha_de (usuarios db1) p1 m = linha_de (usuarios db2) p1 m"
proof -
  from assms(1,4) have "outro p1 m \<in> set (map u_id (usuarios db1))"
    by (auto simp: integro_def outro_def)
  with assms(1-3) have "nome_de (usuarios db1) (outro p1 m) = nome_de (usuarios db2) (outro p1 m)"
    by (intro nome_de_conjunto) (simp_all add: integro_def)
  then show ?thesis by (simp add: linha_de_def)
qed

lemma mset_sub:
  assumes "integro db1" "integro db2" "set (usuarios db1) = set (usuarios db2)"
    and "mset (mensagens db1) = mset (mensagens db2)"
  shows "mset (sub plano1 db1 p1) = mset (sub plano2 db2 p1)"
proof -
  have "mset (sub plano1 db1 p1) =
      image_mset (linha_de (usuarios db1) p1) (filter_mset (envolve p1) (mset (mensagens db1)))"
    by (simp add: sub_linha_de [OF assms(1)])
  also have "\<dots> =
      image_mset (linha_de (usuarios db2) p1) (filter_mset (envolve p1) (mset (mensagens db1)))"
    by (rule image_mset_cong) (simp add: linha_de_conjunto [OF assms(1-3)])
  also have "\<dots> = mset (sub plano2 db2 p1)"
    by (simp add: sub_linha_de [OF assms(2)] assms(4))
  finally show ?thesis .
qed

lemma chave_injetiva:
  assumes "integro db" "sem_empates p1 (mensagens db)"
  shows "inj_on (\<lambda>l. (outro_usuario_id l, - c_enviado_em l)) (set (sub plano db p1))"
proof (rule inj_onI)
  fix l l'
  assume l: "l \<in> set (sub plano db p1)" and l': "l' \<in> set (sub plano db p1)"
    and k: "(outro_usuario_id l, - c_enviado_em l) = (outro_usuario_id l', - c_enviado_em l')"
  from l obtain m where m: "m \<in> set (mensagens db)" "envolve p1 m" "l = linha_de (usuarios db) p1 m"
    unfolding set_sub [OF assms(1)] by auto
  from l' obtain m' where m': "m' \<in> set (mensagens db)" "envolve p1 m'"
      "l' = linha_de (usuarios db) p1 m'"
    unfolding set_sub [OF assms(1)] by auto
  from k m(3) m'(3) have "outro p1 m = outro p1 m'" "enviado_em m = enviado_em m'"
    by (simp_all add: linha_de_def)
  with assms(2) m(1,2) m'(1,2) have "m = m'" unfolding sem_empates_def by blast
  with m(3) m'(3) show "l = l'" by simp
qed

lemma conversas_sem_empates:
  assumes "integro db1" "integro db2"
    and "set (usuarios db1) = set (usuarios db2)"
    and "mset (mensagens db1) = mset (mensagens db2)"
    and "sem_empates p1 (mensagens db1)"
  shows "conversas plano1 db1 p1 = conversas plano2 db2 p1"
proof -
  have "order_by plano1 (\<lambda>l. (outro_usuario_id l, - c_enviado_em l)) (sub plano1 db1 p1) =
        order_by plano2 (\<lambda>l. (outro_usuario_id l, - c_enviado_em l)) (sub plano2 db2 p1)"
    by (rule order_by_unico [OF mset_sub [OF assms(1-4)] chave_injetiva [OF assms(1,5)]])
  then show ?thesis by (simp add: conversas_def)
qed

lemma nome_linha_conversas:
  assumes "integro db" "l \<in> set (conversas plano db p1)"
  shows "outro_usuario_nome l = nome_de (usuarios db) (outro_usuario_id l) \<and>
     outro_usuario_id l \<in> set (map u_id (usuarios db))"
proof -
  from assms(2) have "l \<in> set (sub plano db p1)"
    unfolding conversas_def using set_distinct_on_subset by fastforce
  then obtain m where m: "m \<in> set (mensagens db)" "l = linha_de (usuarios db) p1 m"
    unfolding set_sub [OF assms(1)] by auto
  from assms(1) m(1) have "outro p1 m \<in> set (map u_id (usuarios db))"
    by (auto simp: integro_def outro_def)
  with m(2) show ?thesis by (simp add: linha_de_def)
qed

lemma conversas_chaves_determinadas:
  assumes "integro db1" "integro db2"
    and "set (usuarios db1) = set (usuarios db2)"
    and "mset (mensagens db1) = mset (mensagens db2)"
  shows "map (\<lambda>l. (outro_usuario_id l, - c_enviado_em l)) (conversas plano1 db1 p1) =
         map (\<lambda>l. (outro_usuario_id l, - c_enviado_em l)) (conversas plano2 db2 p1)"
  unfolding conversas_def
proof (rule distinct_on_chaves_determinadas)
  let ?K = "\<lambda>l. (outro_usuario_id l, - c_enviado_em l)"
  show "sorted (map ?K (order_by plano1 ?K (sub plano1 db1 p1)))" by simp
  show "sorted (map ?K (order_by plano2 ?K (sub plano2 db2 p1)))" by simp
  from mset_sub [OF assms] have "set (sub plano1 db1 p1) = set (sub plano2 db2 p1)"
    by (rule mset_eq_setD)
  then show "?K ` set (order_by plano1 ?K (sub plano1 db1 p1)) =
      ?K ` set (order_by plano2 ?K (sub plano2 db2 p1))"
    by simp
qed

lemma conversas_menos_texto_determinadas:
  assumes "integro db1" "integro db2"
    and "set (usuarios db1) = set (usuarios db2)"
    and "mset (mensagens db1) = mset (mensagens db2)"
  shows "map (\<lambda>l. (outro_usuario_id l, outro_usuario_nome l, c_enviado_em l)) (conversas plano1 db1 p1) =
         map (\<lambda>l. (outro_usuario_id l, outro_usuario_nome l, c_enviado_em l)) (conversas plano2 db2 p1)"
proof -
  let ?K = "\<lambda>l. (outro_usuario_id l, - c_enviado_em l)"
  let ?F = "\<lambda>(c, t). (c, nome_de (usuarios db1) c, - t)"
  have 1: "map (\<lambda>l. (outro_usuario_id l, outro_usuario_nome l, c_enviado_em l)) (conversas plano1 db1 p1)
      = map ?F (map ?K (conversas plano1 db1 p1))"
    using nome_linha_conversas [OF assms(1)] by simp
  have "outro_usuario_nome l = nome_de (usuarios db1) (outro_usuario_id l)"
    if "l \<in> set (conversas plano2 db2 p1)" for l
  proof -
    from nome_linha_conversas [OF assms(2) that]
    have "outro_usuario_nome l = nome_de (usuarios db2) (outro_usuario_id l)"
      "outro_usuario_id l \<in> set (map u_id (usuarios db2))"
      by simp_all
    moreover from assms(1-3) this(2)
    have "nome_de (usuarios db2) (outro_usuario_id l) = nome_de (usuarios db1) (outro_usuario_id l)"
      by (intro nome_de_conjunto) (simp_all add: integro_def)
    ultimately show ?thesis by simp
  qed
  then have 2: "map (\<lambda>l. (outro_usuario_id l, outro_usuario_nome l, c_enviado_em l)) (conversas plano2 db2 p1)
      = map ?F (map ?K (conversas plano2 db2 p1))"
    by simp
  show ?thesis
    unfolding 1 2 conversas_chaves_determinadas [OF assms, of plano1 p1 plano2] ..
qed

text \<open>
  C1: the rows of \<open>GET /conversas/:usuario_id\<close> are not in descending order of the time
  of the last message. User 1 wrote to user 2 at time 5 and to user 3 at time 10; under
  every plan the answer has the row of user 2 before the row of user 3, which was
  contacted later. The \<open>ORDER BY m.enviado_em DESC\<close> of the subquery is overridden by
  the outer \<open>ORDER BY\<close> that \<open>DISTINCT ON\<close> requires, whose leading key is the
  counterparty's id.
\<close>

theorem conversas_recencia_contraexemplo:
  "(\<forall>plano. conversas plano
     \<lparr>usuarios =
        [\<lparr>u_id = 1, nome = ''Ana'', telefone = ''555-0001'', criado_em = 1\<rparr>,
         \<lparr>u_id = 2, nome = ''Bob'', telefone = ''555-0002'', criado_em = 2\<rparr>,
         \<lparr>u_id = 3, nome = ''Cid'', telefone = ''555-0003'', criado_em = 3\<rparr>],
      mensagens =
        [\<lparr>m_id = 1, remetente_id = 1, destinatario_id = 2, texto = ''oi'', enviado_em = 5\<rparr>,
         \<lparr>m_id = 2, remetente_id = 1, destinatario_id = 3, texto = ''bom dia'', enviado_em = 10\<rparr>],
      usuarios_id_seq = 4, mensagens_id_seq = 3\<rparr> 1
   = [\<lparr>outro_usuario_id = 2, outro_usuario_nome = ''Bob'', ultima_mensagem = ''oi'',
       c_enviado_em = 5\<rparr>,
      \<lparr>outro_usuario_id = 3, outro_usuario_nome = ''Cid'', ultima_mensagem = ''bom dia'',
       c_enviado_em = 10\<rparr>])
   \<and> \<not> sorted_wrt (\<lambda>a b. c_enviado_em a \<ge> c_enviado_em b)
        [\<lparr>outro_usuario_id = 2, outro_usuario_nome = ''Bob'', ultima_mensagem = ''oi'',
          c_enviado_em = 5\<rparr>,
         \<lparr>outro_usuario_id = 3, outro_usuario_nome = ''Cid'', ultima_mensagem = ''bom dia'',
          c_enviado_em = 10\<rparr>]"
proof -
  let ?db = "\<lparr>usuarios =
        [\<lparr>u_id = 1, nome = ''Ana'', telefone = ''555-0001'', criado_em = 1\<rparr>,
         \<lparr>u_id = 2, nome = ''Bob'', telefone = ''555-0002'', criado_em = 2\<rparr>,
         \<lparr>u_id = 3, nome = ''Cid'', telefone = ''555-0003'', criado_em = 3\<rparr>],
      mensagens =
        [\<lparr>m_id = 1, remetente_id = 1, destinatario_id = 2, texto = ''oi'', enviado_em = 5\<rparr>,
         \<lparr>m_id = 2, remetente_id = 1, destinatario_id = 3, texto = ''bom dia'', enviado_em = 10\<rparr>],
      usuarios_id_seq = 4, mensagens_id_seq = 3\<rparr>"
  let ?r = "[\<lparr>outro_usuario_id = 2, outro_usuario_nome = ''Bob'', ultima_mensagem = ''oi'',
       c_enviado_em = 5\<rparr>,
      \<lparr>outro_usuario_id = 3, outro_usuario_nome = ''Cid'', ultima_mensagem = ''bom dia'',
       c_enviado_em = 10\<rparr>]"
  have i: "integro ?db" by (simp add: integro_def)
  have e: "sem_empates 1 (mensagens ?db)" by (simp add: sem_empates_def envolve_def outro_def)
  have v: "conversas id ?db 1 = ?r" by (simp add: conversas_def sub_def order_by_id)
  have "conversas plano ?db 1 = ?r" for plano
    using conversas_sem_empates [OF i i refl refl e, of plano id] v by simp
  then show ?thesis by simp
qed

text \<open>
  C2: over an intact store and under every plan, \<open>GET /conversas/:usuario_id\<close> has no
  two rows of the same counterparty, has a row for a counterparty exactly when some
  message went between the user and that counterparty, and each row carries the text
  and the time of a message between the two that no other message between them is later
  than.
\<close>

theorem conversas_uma_linha_por_contato:
  assumes "integro db"
  shows "distinct (map outro_usuario_id (conversas plano db p1)) \<and>
    (\<forall>c. c \<in> set (map outro_usuario_id (conversas plano db p1)) \<longleftrightarrow>
       (\<exists>m \<in> set (mensagens db). entre p1 c m)) \<and>
    (\<forall>l \<in> set (conversas plano db p1).
       \<exists>m \<in> set (mensagens db).
         entre p1 (outro_usuario_id l) m \<and>
         ultima_mensagem l = texto m \<and> c_enviado_em l = enviado_em m \<and>
         (\<forall>m' \<in> set (mensagens db).
            entre p1 (outro_usuario_id l) m' \<longrightarrow> enviado_em m' \<le> enviado_em m))"
proof -
  let ?K = "\<lambda>l. (outro_usuario_id l, - c_enviado_em l)"
  let ?xs = "order_by plano ?K (sub plano db p1)"
  let ?L = "linha_de (usuarios db) p1"
  have cv: "conversas plano db p1 = distinct_on outro_usuario_id ?xs" by (simp add: conversas_def)
  have sx: "set ?xs = ?L ` {m \<in> set (mensagens db). envolve p1 m}"
    using set_sub [OF assms] by simp
  have so: "sorted (map ?K ?xs)" by simp
  have "sorted_wrt (<) (map outro_usuario_id (conversas plano db p1))"
    by (rule conversas_por_id_crescente)
  then have 1: "distinct (map outro_usuario_id (conversas plano db p1))"
    by (simp add: strict_sorted_iff)
  have 2: "c \<in> set (map outro_usuario_id (conversas plano db p1)) \<longleftrightarrow>
       (\<exists>m \<in> set (mensagens db). entre p1 c m)" for c
  proof -
    have "set (map outro_usuario_id (conversas plano db p1)) = outro_usuario_id ` set ?xs"
      unfolding cv by (simp add: chaves_distinct_on)
    also have "\<dots> = outro p1 ` {m \<in> set (mensagens db). envolve p1 m}"
      unfolding sx by (auto simp: linha_de_def image_iff)
    finally show ?thesis by (auto simp: entre_iff)
  qed
  have 3: "\<exists>m \<in> set (mensagens db).
         entre p1 (outro_usuario_id l) m \<and>
         ultima_mensagem l = texto m \<and> c_enviado_em l = enviado_em m \<and>
         (\<forall>m' \<in> set (mensagens db).
            entre p1 (outro_usuario_id l) m' \<longrightarrow> enviado_em m' \<le> enviado_em m)"
    if l: "l \<in> set (conversas plano db p1)" for l
  proof -
    from l have ld: "l \<in> set (distinct_on outro_usuario_id ?xs)" by (simp add: cv)
    then have "l \<in> set ?xs" using set_distinct_on_subset by fastforce
    then obtain m where m: "m \<in> set (mensagens db)" "envolve p1 m" "l = ?L m"
      unfolding sx by auto
    have max: "enviado_em m' \<le> enviado_em m"
      if m': "m' \<in> set (mensagens db)" "entre p1 (outro_usuario_id l) m'" for m'
    proof -
      from m' have "?L m' \<in> set ?xs" unfolding sx by (simp add: entre_iff)
      moreover from m' have "outro_usuario_id (?L m') = outro_usuario_id l"
        by (simp add: entre_iff linha_de_def)
      ultimately have "?L m' \<in> set ?xs" "outro_usuario_id (?L m') = outro_usuario_id l" .
      from distinct_on_primeiro [OF so ld this]
      show ?thesis using m(3) by (simp add: linha_de_def)
    qed
    from m have "entre p1 (outro_usuario_id l) m" "ultima_mensagem l = texto m"
      "c_enviado_em l = enviado_em m"
      by (simp_all add: entre_iff linha_de_def)
    with m(1) max show ?thesis by blast
  qed
  from 1 2 3 show ?thesis by blast
qed

theorem conversas_uma_linha_por_contato_witness:
  "integro banco_exemplo \<and>
   distinct (map outro_usuario_id (conversas id banco_exemplo 1)) \<and>
   (\<forall>c. c \<in> set (map outro_usuario_id (conversas id banco_exemplo 1)) \<longleftrightarrow>
      (\<exists>m \<in> set (mensagens banco_exemplo). entre 1 c m)) \<and>
   (\<exists>m \<in> set (mensagens banco_exemplo).
      entre 1 2 m \<and> texto m = ''ola'' \<and> enviado_em m = 7 \<and>
      \<not> (\<exists>m' \<in> set (mensagens banco_exemplo). entre 1 2 m' \<and> enviado_em m < enviado_em m')) \<and>
   conversas id banco_exemplo 1 =
     [\<lparr>outro_usuario_id = 2, outro_usuario_nome = ''Bob'', ultima_mensagem = ''ola'',
       c_enviado_em = 7\<rparr>,
      \<lparr>outro_usuario_id = 3, outro_usuario_nome = ''Cid'', ultima_mensagem = ''bom dia'',
       c_enviado_em = 10\<rparr>]"
proof -
  let ?l = "\<lparr>outro_usuario_id = 2, outro_usuario_nome = ''Bob'', ultima_mensagem = ''ola'',
       c_enviado_em = 7\<rparr>"
  have v: "conversas id banco_exemplo 1 =
     [?l,
      \<lparr>outro_usuario_id = 3, outro_usuario_nome = ''Cid'', ultima_mensagem = ''bom dia'',
       c_enviado_em = 10\<rparr>]"
    by (simp add: conversas_def sub_def order_by_id banco_exemplo_def tres_usuarios_def)
  note t = conversas_uma_linha_por_contato [OF integro_banco_exemplo, of id 1]
  from v have "?l \<in> set (conversas id banco_exemplo 1)" by simp
  with t obtain m where m: "m \<in> set (mensagens banco_exemplo)" "entre 1 2 m"
    "texto m = ''ola''" "enviado_em m = 7"
    "\<forall>m' \<in> set (mensagens banco_exemplo). entre 1 2 m' \<longrightarrow> enviado_em m' \<le> enviado_em m"
    by fastforce
  then have "\<exists>m \<in> set (mensagens banco_exemplo).
      entre 1 2 m \<and> texto m = ''ola'' \<and> enviado_em m = 7 \<and>
      \<not> (\<exists>m' \<in> set (mensagens banco_exemplo). entre 1 2 m' \<and> enviado_em m < enviado_em m')"
    by (intro bexI [of _ m]) fastforce+
  with t integro_banco_exemplo v show ?thesis by blast
qed

text \<open>
  C8 (as amended): for any two intact stores that hold the same users and the same
  messages, and any two plans, the summaries of a user have the same counterparties,
  names and times, row for row; and when no two messages of the user with the same
  counterparty carry the same time, the summaries are equal, texts included.
\<close>

theorem conversas_determinada_pelos_dados:
  assumes "integro db1" "integro db2"
    and "set (usuarios db1) = set (usuarios db2)"
    and "mset (mensagens db1) = mset (mensagens db2)"
  shows "map (\<lambda>l. (outro_usuario_id l, outro_usuario_nome l, c_enviado_em l))
           (conversas plano1 db1 p1) =
         map (\<lambda>l. (outro_usuario_id l, outro_usuario_nome l, c_enviado_em l))
           (conversas plano2 db2 p1) \<and>
    (sem_empates p1 (mensagens db1) \<longrightarrow> conversas plano1 db1 p1 = conversas plano2 db2 p1)"
  using conversas_menos_texto_determinadas [OF assms] conversas_sem_empates [OF assms]
  by blast

theorem conversas_determinada_pelos_dados_witness:
  "integro banco_exemplo \<and>
   integro (banco_exemplo\<lparr>mensagens := rev (mensagens banco_exemplo)\<rparr>) \<and>
   set (usuarios banco_exemplo) =
     set (usuarios (banco_exemplo\<lparr>mensagens := rev (mensagens banco_exemplo)\<rparr>)) \<and>
   mset (mensagens banco_exemplo) =
     mset (mensagens (banco_exemplo\<lparr>mensagens := rev (mensagens banco_exemplo)\<rparr>)) \<and>
   sem_empates 1 (mensagens banco_exemplo) \<and>
   conversas id banco_exemplo 1 =
     conversas rev (banco_exemplo\<lparr>mensagens := rev (mensagens banco_exemplo)\<rparr>) 1"
proof -
  let ?db2 = "banco_exemplo\<lparr>mensagens := rev (mensagens banco_exemplo)\<rparr>"
  have h2: "integro ?db2"
    using integro_banco_exemplo by (simp add: integro_def distinct_rev rev_map [symmetric])
  have h3: "set (usuarios banco_exemplo) = set (usuarios ?db2)" by simp
  have h4: "mset (mensagens banco_exemplo) = mset (mensagens ?db2)" by simp
  have h5: "sem_empates 1 (mensagens banco_exemplo)"
    by (simp add: sem_empates_def banco_exemplo_def envolve_def outro_def)
  from conversas_determinada_pelos_dados [OF integro_banco_exemplo h2 h3 h4, of id 1 rev]
    integro_banco_exemplo h2 h3 h4 h5
  show ?thesis by blast
qed

text \<open>
  C8 (as stated) fails: in a store with two messages between the users 1 and 2, both of
  time 5, the two sort keys of the rows are equal, and the query has no further key.
  Under the plan that delivers the row of the first message before the row of the
  second, the summary of user 1 carries the text of the first message; under the plan
  that delivers them the other way round, the text of the second. Both plans are
  rearrangements of the rows; which one an installation follows is decided by its
  executor (by the order of the rows of \<open>usuarios\<close>, for instance, when the join starts
  from that table), not by the stored data.
\<close>

theorem conversas_empate_contraexemplo:
  "conversas
     (\<lambda>ls. [\<lparr>outro_usuario_id = 2, outro_usuario_nome = ''Bob'', ultima_mensagem = ''a'',
              c_enviado_em = 5\<rparr>,
             \<lparr>outro_usuario_id = 2, outro_usuario_nome = ''Bob'', ultima_mensagem = ''b'',
              c_enviado_em = 5\<rparr>])
     \<lparr>usuarios =
        [\<lparr>u_id = 1, nome = ''Ana'', telefone = ''555-0001'', criado_em = 1\<rparr>,
         \<lparr>u_id = 2, nome = ''Bob'', telefone = ''555-0002'', criado_em = 2\<rparr>],
      mensagens =
        [\<lparr>m_id = 1, remetente_id = 1, destinatario_id = 2, texto = ''a'', enviado_em = 5\<rparr>,
         \<lparr>m_id = 2, remetente_id = 2, destinatario_id = 1, texto = ''b'', enviado_em = 5\<rparr>],
      usuarios_id_seq = 3, mensagens_id_seq = 3\<rparr> 1
   = [\<lparr>outro_usuario_id = 2, outro_usuario_nome = ''Bob'', ultima_mensagem = ''a'',
       c_enviado_em = 5\<rparr>] \<and>
   conversas
     (\<lambda>ls. [\<lparr>outro_usuario_id = 2, outro_usuario_nome = ''Bob'', ultima_mensagem = ''b'',
              c_enviado_em = 5\<rparr>,
             \<lparr>outro_usuario_id = 2, outro_usuario_nome = ''Bob'', ultima_mensagem = ''a'',
              c_enviado_em = 5\<rparr>])
     \<lparr>usuarios =
        [\<lparr>u_id = 1, nome = ''Ana'', telefone = ''555-0001'', criado_em = 1\<rparr>,
         \<lparr>u_id = 2, nome = ''Bob'', telefone = ''555-0002'', criado_em = 2\<rparr>],
      mensagens =
        [\<lparr>m_id = 1, remetente_id = 1, destinatario_id = 2, texto = ''a'', enviado_em = 5\<rparr>,
         \<lparr>m_id = 2, remetente_id = 2, destinatario_id = 1, texto = ''b'', enviado_em = 5\<rparr>],
      usuarios_id_seq = 3, mensagens_id_seq = 3\<rparr> 1
   = [\<lparr>outro_usuario_id = 2, outro_usuario_nome = ''Bob'', ultima_mensagem = ''b'',
       c_enviado_em = 5\<rparr>]"
  by (simp add: conversas_def sub_def order_by_def entrega_def)

section \<open>The conversation between two users, proved\<close>

lemma map_insort_key: "map g (insort_key (\<lambda>x. f (g x)) a xs) = insort_key f (g a) (map g xs)"
  by (induction xs) auto

lemma map_sort_key: "map g (sort_key (\<lambda>x. f (g x)) xs) = sort_key f (map g xs)"
  by (induction xs) (auto simp: map_insort_key)

lemma entre_comuta: "entre a b = entre b a"
  by (auto simp: entre_def fun_eq_iff)

lemma msg_linha_mensagem_de: "msg (linha_mensagem_de us m) = m"
  by (simp add: linha_mensagem_de_def)

lemma linha_mensagem_de_conjunto:
  assumes "integro db1" "integro db2" "set (usuarios db1) = set (usuarios db2)"
    and "m \<in> set (mensagens db1)"
  shows "linha_mensagem_de (usuarios db1) m = linha_mensagem_de (usuarios db2) m"
proof -
  from assms(1,4) have "remetente_id m \<in> set (map u_id (usuarios db1))"
      "destinatario_id m \<in> set (map u_id (usuarios db1))"
    by (auto simp: integro_def)
  with assms(1-3)
  have "nome_de (usuarios db1) (remetente_id m) = nome_de (usuarios db2) (remetente_id m)"
    "nome_de (usuarios db1) (destinatario_id m) = nome_de (usuarios db2) (destinatario_id m)"
    by (auto intro!: nome_de_conjunto simp: integro_def)
  then show ?thesis by (simp add: linha_mensagem_de_def)
qed

lemma mset_conversa:
  assumes "integro db"
  shows "mset (conversa plano db a b) =
     image_mset (linha_mensagem_de (usuarios db)) (filter_mset (entre a b) (mset (mensagens db)))"
  by (simp add: conversa_linhas [OF assms])

lemma mset_conversa_comuta:
  assumes "integro db1" "integro db2" "set (usuarios db1) = set (usuarios db2)"
    and "mset (mensagens db1) = mset (mensagens db2)"
  shows "mset (conversa plano1 db1 a b) = mset (conversa plano2 db2 b a)"
proof -
  have "mset (conversa plano1 db1 a b) =
      image_mset (linha_mensagem_de (usuarios db1)) (filter_mset (entre a b) (mset (mensagens db1)))"
    by (rule mset_conversa [OF assms(1)])
  also have "\<dots> =
      image_mset (linha_mensagem_de (usuarios db2)) (filter_mset (entre a b) (mset (mensagens db1)))"
    by (rule image_mset_cong) (simp add: linha_mensagem_de_conjunto [OF assms(1-3)])
  also have "\<dots> = mset (conversa plano2 db2 b a)"
    by (simp add: mset_conversa [OF assms(2)] assms(4) entre_comuta [of a b])
  finally show ?thesis .
qed

lemma tempo_injetivo:
  assumes "integro db" "sem_empates_entre a b (mensagens db)"
  shows "inj_on (\<lambda>l. enviado_em (msg l))
     (set (map (linha_mensagem_de (usuarios db)) (filter (entre a b) (mensagens db))))"
proof (rule inj_onI)
  fix l l'
  assume l: "l \<in> set (map (linha_mensagem_de (usuarios db)) (filter (entre a b) (mensagens db)))"
    and l': "l' \<in> set (map (linha_mensagem_de (usuarios db)) (filter (entre a b) (mensagens db)))"
    and k: "enviado_em (msg l) = enviado_em (msg l')"
  from l obtain m where m: "m \<in> set (mensagens db)" "entre a b m"
      "l = linha_mensagem_de (usuarios db) m"
    by auto
  from l' obtain m' where m': "m' \<in> set (mensagens db)" "entre a b m'"
      "l' = linha_mensagem_de (usuarios db) m'"
    by auto
  from k m(3) m'(3) have "enviado_em m = enviado_em m'" by (simp add: msg_linha_mensagem_de)
  with assms(2) m(1,2) m'(1,2) have "m = m'" unfolding sem_empates_entre_def by blast
  with m(3) m'(3) show "l = l'" by simp
qed

lemma conversa_sem_empates:
  assumes "integro db1" "integro db2" "set (usuarios db1) = set (usuarios db2)"
    and "mset (mensagens db1) = mset (mensagens db2)"
    and "sem_empates_entre a b (mensagens db1)"
  shows "conversa plano1 db1 a b = conversa plano2 db2 b a"
proof -
  let ?xs = "map (linha_mensagem_de (usuarios db1)) (filter (entre a b) (mensagens db1))"
  let ?ys = "map (linha_mensagem_de (usuarios db2)) (filter (entre b a) (mensagens db2))"
  have "mset ?xs = mset ?ys"
    using mset_conversa_comuta [OF assms(1-4), of plano1 a b plano2]
    by (simp add: mset_conversa [OF assms(1)] mset_conversa [OF assms(2)])
  from order_by_unico [OF this tempo_injetivo [OF assms(1,5)]]
  show ?thesis by (simp add: conversa_linhas [OF assms(1)] conversa_linhas [OF assms(2)])
qed

lemma conversa_sem_empates_ordem:
  assumes "integro db" "sem_empates_entre a b (mensagens db)"
  shows "map msg (conversa plano db a b) = sort_key enviado_em [m \<leftarrow> mensagens db. entre a b m]"
proof -
  let ?xs = "map (linha_mensagem_de (usuarios db)) (filter (entre a b) (mensagens db))"
  have "map msg (conversa plano db a b) = sort_key enviado_em (map msg (entrega plano ?xs))"
    unfolding conversa_linhas [OF assms(1)] order_by_def by (rule map_sort_key)
  also have "\<dots> = sort_key enviado_em [m \<leftarrow> mensagens db. entre a b m]"
  proof (rule sort_key_eq_sort_key)
    show "mset (map msg (entrega plano ?xs)) = mset [m \<leftarrow> mensagens db. entre a b m]"
      by (simp add: image_mset.compositionality comp_def msg_linha_mensagem_de)
    then have "set (map msg (entrega plano ?xs)) = set [m \<leftarrow> mensagens db. entre a b m]"
      by (rule mset_eq_setD)
    moreover have "inj_on enviado_em (set [m \<leftarrow> mensagens db. entre a b m])"
      using assms(2) unfolding sem_empates_entre_def by (auto intro!: inj_onI)
    ultimately show "inj_on enviado_em (set (map msg (entrega plano ?xs)))" by simp
  qed
  finally show ?thesis .
qed

text \<open>
  C3 (as amended): over an intact store and under every plan, the messages of the
  conversation of \<open>a\<close> and \<open>b\<close> are exactly the stored messages sent from one of the two
  to the other, in ascending order of \<open>enviado_em\<close>, and every row carries the names of
  the users that its sender and recipient ids refer to. For any two intact stores that
  hold the same users and the same messages, and any two plans, the conversation of
  \<open>a\<close> and \<open>b\<close> and the conversation of \<open>b\<close> and \<open>a\<close> hold the same rows; and when no two
  messages between \<open>a\<close> and \<open>b\<close> carry the same time, the two are equal, row for row.
\<close>

theorem conversa_exata_e_simetrica:
  assumes "integro db1" "integro db2"
    and "set (usuarios db1) = set (usuarios db2)"
    and "mset (mensagens db1) = mset (mensagens db2)"
  shows "mset (map msg (conversa plano1 db1 a b)) = mset [m \<leftarrow> mensagens db1. entre a b m] \<and>
    sorted (map (\<lambda>l. enviado_em (msg l)) (conversa plano1 db1 a b)) \<and>
    (\<forall>l \<in> set (conversa plano1 db1 a b).
       (\<exists>u \<in> set (usuarios db1). u_id u = remetente_id (msg l) \<and> nome u = remetente_nome l) \<and>
       (\<exists>u \<in> set (usuarios db1).
          u_id u = destinatario_id (msg l) \<and> nome u = destinatario_nome l)) \<and>
    mset (conversa plano1 db1 a b) = mset (conversa plano2 db2 b a) \<and>
    (sem_empates_entre a b (mensagens db1) \<longrightarrow>
       conversa plano1 db1 a b = conversa plano2 db2 b a \<and>
       map msg (conversa plano1 db1 a b) = sort_key enviado_em [m \<leftarrow> mensagens db1. entre a b m])"
proof (intro conjI impI)
  let ?us = "usuarios db1"
  note c = conversa_linhas [OF assms(1)]
  show "mset (map msg (conversa plano1 db1 a b)) = mset [m \<leftarrow> mensagens db1. entre a b m]"
    by (simp add: mset_conversa [OF assms(1)] image_mset.compositionality comp_def
        msg_linha_mensagem_de)
  show "sorted (map (\<lambda>l. enviado_em (msg l)) (conversa plano1 db1 a b))"
    unfolding c by simp
  show "\<forall>l \<in> set (conversa plano1 db1 a b).
       (\<exists>u \<in> set ?us. u_id u = remetente_id (msg l) \<and> nome u = remetente_nome l) \<and>
       (\<exists>u \<in> set ?us. u_id u = destinatario_id (msg l) \<and> nome u = destinatario_nome l)"
  proof
    fix l assume "l \<in> set (conversa plano1 db1 a b)"
    then obtain m where m: "m \<in> set (mensagens db1)" "l = linha_mensagem_de ?us m"
      unfolding c by auto
    with assms(1) have "remetente_id m \<in> set (map u_id ?us)" "destinatario_id m \<in> set (map u_id ?us)"
      by (auto simp: integro_def)
    from nome_de_existe [OF this(1)] nome_de_existe [OF this(2)] m(2)
    show "(\<exists>u \<in> set ?us. u_id u = remetente_id (msg l) \<and> nome u = remetente_nome l) \<and>
         (\<exists>u \<in> set ?us. u_id u = destinatario_id (msg l) \<and> nome u = destinatario_nome l)"
      by (simp add: linha_mensagem_de_def)
  qed
  show "mset (conversa plano1 db1 a b) = mset (conversa plano2 db2 b a)"
    by (rule mset_conversa_comuta [OF assms])
next
  assume e: "sem_empates_entre a b (mensagens db1)"
  show "conversa plano1 db1 a b = conversa plano2 db2 b a"
    by (rule conversa_sem_empates [OF assms e])
  show "map msg (conversa plano1 db1 a b) = sort_key enviado_em [m \<leftarrow> mensagens db1. entre a b m]"
    by (rule conversa_sem_empates_ordem [OF assms(1) e])
qed

theorem conversa_exata_e_simetrica_witness:
  "integro banco_exemplo \<and>
   integro (banco_exemplo\<lparr>mensagens := rev (mensagens banco_exemplo)\<rparr>) \<and>
   set (usuarios banco_exemplo) =
     set (usuarios (banco_exemplo\<lparr>mensagens := rev (mensagens banco_exemplo)\<rparr>)) \<and>
   mset (mensagens banco_exemplo) =
     mset (mensagens (banco_exemplo\<lparr>mensagens := rev (mensagens banco_exemplo)\<rparr>)) \<and>
   sem_empates_entre 1 2 (mensagens banco_exemplo) \<and>
   conversa id banco_exemplo 1 2 =
     conversa rev (banco_exemplo\<lparr>mensagens := rev (mensagens banco_exemplo)\<rparr>) 2 1 \<and>
   map msg (conversa id banco_exemplo 1 2) =
     sort_key enviado_em [m \<leftarrow> mensagens banco_exemplo. entre 1 2 m] \<and>
   conversa id banco_exemplo 1 2 =
     [\<lparr>msg = \<lparr>m_id = 1, remetente_id = 1, destinatario_id = 2, texto = ''oi'', enviado_em = 5\<rparr>,
       remetente_nome = ''Ana'', destinatario_nome = ''Bob''\<rparr>,
      \<lparr>msg = \<lparr>m_id = 2, remetente_id = 2, destinatario_id = 1, texto = ''ola'', enviado_em = 7\<rparr>,
       remetente_nome = ''Bob'', destinatario_nome = ''Ana''\<rparr>]"
proof -
  let ?db2 = "banco_exemplo\<lparr>mensagens := rev (mensagens banco_exemplo)\<rparr>"
  have h2: "integro ?db2"
    using integro_banco_exemplo by (simp add: integro_def distinct_rev rev_map [symmetric])
  have h3: "set (usuarios banco_exemplo) = set (usuarios ?db2)" by simp
  have h4: "mset (mensagens banco_exemplo) = mset (mensagens ?db2)" by simp
  have h5: "sem_empates_entre 1 2 (mensagens banco_exemplo)"
    by (simp add: sem_empates_entre_def banco_exemplo_def entre_def)
  have v: "conversa id banco_exemplo 1 2 =
     [\<lparr>msg = \<lparr>m_id = 1, remetente_id = 1, destinatario_id = 2, texto = ''oi'', enviado_em = 5\<rparr>,
       remetente_nome = ''Ana'', destinatario_nome = ''Bob''\<rparr>,
      \<lparr>msg = \<lparr>m_id = 2, remetente_id = 2, destinatario_id = 1, texto = ''ola'', enviado_em = 7\<rparr>,
       remetente_nome = ''Bob'', destinatario_nome = ''Ana''\<rparr>]"
    by (simp add: conversa_def order_by_id banco_exemplo_def tres_usuarios_def)
  note t = conversa_exata_e_simetrica [OF integro_banco_exemplo h2 h3 h4, of id 1 2 rev]
  from t h5 have a: "conversa id banco_exemplo 1 2 = conversa rev ?db2 2 1"
    and b: "map msg (conversa id banco_exemplo 1 2) =
      sort_key enviado_em [m \<leftarrow> mensagens banco_exemplo. entre 1 2 m]"
    by blast+
  from integro_banco_exemplo h2 h3 h4 h5 a b v show ?thesis by blast
qed

text \<open>
  C3 (as stated) fails: in a store with two messages between the users 1 and 2, both of
  time 5, \<open>ORDER BY m.enviado_em\<close> does not decide which comes first. Under the plan that
  delivers the row of the first message before the row of the second, the conversation
  of 1 and 2 has them in that order; under the plan that delivers them the other way
  round, the conversation of 2 and 1 has them in the other order. Both plans are
  rearrangements of the rows.
\<close>

theorem conversa_empate_contraexemplo:
  "conversa
     (\<lambda>ls. [\<lparr>msg = \<lparr>m_id = 1, remetente_id = 1, destinatario_id = 2, texto = ''a'', enviado_em = 5\<rparr>,
              remetente_nome = ''Ana'', destinatario_nome = ''Bob''\<rparr>,
             \<lparr>msg = \<lparr>m_id = 2, remetente_id = 2, destinatario_id = 1, texto = ''b'', enviado_em = 5\<rparr>,
              remetente_nome = ''Bob'', destinatario_nome = ''Ana''\<rparr>])
     \<lparr>usuarios =
        [\<lparr>u_id = 1, nome = ''Ana'', telefone = ''555-0001'', criado_em = 1\<rparr>,
         \<lparr>u_id = 2, nome = ''Bob'', telefone = ''555-0002'', criado_em = 2\<rparr>],
      mensagens =
        [\<lparr>m_id = 1, remetente_id = 1, destinatario_id = 2, texto = ''a'', enviado_em = 5\<rparr>,
         \<lparr>m_id = 2, remetente_id = 2, destinatario_id = 1, texto = ''b'', enviado_em = 5\<rparr>],
      usuarios_id_seq = 3, mensagens_id_seq = 3\<rparr> 1 2
   = [\<lparr>msg = \<lparr>m_id = 1, remetente_id = 1, destinatario_id = 2, texto = ''a'', enviado_em = 5\<rparr>,
       remetente_nome = ''Ana'', destinatario_nome = ''Bob''\<rparr>,
      \<lparr>msg = \<lparr>m_id = 2, remetente_id = 2, destinatario_id = 1, texto = ''b'', enviado_em = 5\<rparr>,
       remetente_nome = ''Bob'', destinatario_nome = ''Ana''\<rparr>] \<and>
   conversa
     (\<lambda>ls. [\<lparr>msg = \<lparr>m_id = 2, remetente_id = 2, destinatario_id = 1, texto = ''b'', enviado_em = 5\<rparr>,
              remetente_nome = ''Bob'', destinatario_nome = ''Ana''\<rparr>,
             \<lparr>msg = \<lparr>m_id = 1, remetente_id = 1, destinatario_id = 2, texto = ''a'', enviado_em = 5\<rparr>,
              remetente_nome = ''Ana'', destinatario_nome = ''Bob''\<rparr>])
     \<lparr>usuarios =
        [\<lparr>u_id = 1, nome = ''Ana'', telefone = ''555-0001'', criado_em = 1\<rparr>,
         \<lparr>u_id = 2, nome = ''Bob'', telefone = ''555-0002'', criado_em = 2\<rparr>],
      mensagens =
        [\<lparr>m_id = 1, remetente_id = 1, destinatario_id = 2, texto = ''a'', enviado_em = 5\<rparr>,
         \<lparr>m_id = 2, remetente_id = 2, destinatario_id = 1, texto = ''b'', enviado_em = 5\<rparr>],
      usuarios_id_seq = 3, mensagens_id_seq = 3\<rparr> 2 1
   = [\<lparr>msg = \<lparr>m_id = 2, remetente_id = 2, destinatario_id = 1, texto = ''b'', enviado_em = 5\<rparr>,
       remetente_nome = ''Bob'', destinatario_nome = ''Ana''\<rparr>,
      \<lparr>msg = \<lparr>m_id = 1, remetente_id = 1, destinatario_id = 2, texto = ''a'', enviado_em = 5\<rparr>,
       remetente_nome = ''Ana'', destinatario_nome = ''Bob''\<rparr>]"
  by (simp add: conversa_def order_by_def entrega_def)

section \<open>The registry of connections\<close>

lemma remover_filter:
  "remover w es c = filter (\<lambda>(k, v). (k, w) \<notin> set es) c"
proof (induction es arbitrary: c)
  case Nil
  then show ?case by simp
next
  case (Cons e es)
  obtain k0 v0 where e: "e = (k0, v0)" by (cases e)
  show ?case
  proof (cases "v0 = w")
    case True
    have "remover w (e # es) c = remover w es (AList.delete k0 c)" using e True by simp
    also have "\<dots> = filter (\<lambda>(k, v). (k, w) \<notin> set es) (AList.delete k0 c)"
      by (rule Cons.IH)
    also have "\<dots> = filter (\<lambda>(k, v). (k, w) \<notin> set (e # es)) c"
      unfolding AList.delete_eq filter_filter e True
      by (rule filter_cong [OF refl]) (simp split: prod.splits, blast)
    finally show ?thesis .
  next
    case False
    have "remover w (e # es) c = remover w es c" using e False by simp
    also have "\<dots> = filter (\<lambda>(k, v). (k, w) \<notin> set es) c" by (rule Cons.IH)
    also have "\<dots> = filter (\<lambda>(k, v). (k, w) \<notin> set (e # es)) c"
      unfolding e
      by (rule filter_cong [OF refl]) (use False in \<open>simp split: prod.splits\<close>)
    finally show ?thesis .
  qed
qed

lemma on_close_filter:
  assumes "distinct (map fst c)"
  shows "remover w c c = filter (\<lambda>(k, v). v \<noteq> w) c"
  unfolding remover_filter
proof (rule filter_cong [OF refl])
  fix x assume x: "x \<in> set c"
  obtain k v where kv: "x = (k, v)" by (cases x)
  have "(k, w) \<in> set c \<longleftrightarrow> v = w"
    using eq_key_imp_eq_value [OF assms, of k w v] x kv by blast
  then show "(case x of (k, v) \<Rightarrow> (k, w) \<notin> set c) = (case x of (k, v) \<Rightarrow> v \<noteq> w)"
    by (simp add: kv)
qed

lemma on_message_distinct:
  "distinct (map fst (conexoes s)) \<Longrightarrow> on_message P w frame s = Inr s' \<Longrightarrow>
   distinct (map fst (conexoes s'))"
  by (auto simp: on_message_def distinct_update split: sum.splits if_splits)

lemma on_close_distinct:
  "distinct (map fst (conexoes s)) \<Longrightarrow> distinct (map fst (conexoes (on_close w s)))"
  by (simp add: on_close_def on_close_filter distinct_map_filter)

text \<open>
  C6: when the connection \<open>w\<close> closes, the registry keeps exactly the entries whose
  socket is not \<open>w\<close>, in their order, however many keys led to \<open>w\<close>; and a connection
  that no entry leads to leaves the server unchanged. The keys of a \<open>Map\<close> are distinct.
\<close>

theorem on_close_remove_todas:
  assumes "distinct (map fst (conexoes s))"
  shows "conexoes (on_close w s) = filter (\<lambda>(usuario_id, socket). socket \<noteq> w) (conexoes s) \<and>
    w \<notin> snd ` set (conexoes (on_close w s)) \<and>
    (w \<notin> snd ` set (conexoes s) \<longrightarrow> on_close w s = s) \<and>
    sockets (on_close w s) = sockets s \<and> prox_ref (on_close w s) = prox_ref s"
proof -
  have 1: "conexoes (on_close w s) = filter (\<lambda>(usuario_id, socket). socket \<noteq> w) (conexoes s)"
    by (simp add: on_close_def on_close_filter [OF assms])
  then have 2: "w \<notin> snd ` set (conexoes (on_close w s))" by auto
  have 3: "on_close w s = s" if "w \<notin> snd ` set (conexoes s)"
  proof -
    from that have "filter (\<lambda>(usuario_id, socket). socket \<noteq> w) (conexoes s) = conexoes s"
      by (auto simp: filter_id_conv image_iff)
    with 1 have "conexoes (on_close w s) = conexoes s" by simp
    then show ?thesis by (simp add: on_close_def)
  qed
  from 1 2 3 show ?thesis by (simp add: on_close_def)
qed

theorem on_close_remove_todas_witness:
  "distinct (map fst [(Num 1, 7), (Num 2, 8), (Str ''1'', 7), (Null, 7)]) \<and>
   conexoes (on_close 7 (servidor_inicial\<lparr>conexoes :=
       [(Num 1, 7), (Num 2, 8), (Str ''1'', 7), (Null, 7)]\<rparr>)) = [(Num 2, 8)] \<and>
   on_close 9 (servidor_inicial\<lparr>conexoes := [(Num 1, 7), (Num 2, 8), (Str ''1'', 7), (Null, 7)]\<rparr>)
     = servidor_inicial\<lparr>conexoes := [(Num 1, 7), (Num 2, 8), (Str ''1'', 7), (Null, 7)]\<rparr>"
proof -
  let ?s = "servidor_inicial\<lparr>conexoes := [(Num 1, 7), (Num 2, 8), (Str ''1'', 7), (Null, 7)]\<rparr>"
  have d: "distinct (map fst (conexoes ?s))" by simp
  from on_close_remove_todas [OF d, of 7] have a: "conexoes (on_close 7 ?s) = [(Num 2, 8)]" by simp
  from on_close_remove_todas [OF d, of 9] have b: "on_close 9 ?s = ?s" by simp
  from a b show ?thesis by simp
qed

text \<open>
  One connection registers under the number 5 and again under the string of its digit;
  the registry then has two entries for it, and none once the connection has closed.
\<close>

lemma registrar_duas_vezes_e_fechar:
  \<open>\<exists>s1 s2.
     on_message JSON_parse_exemplo 7 ''{"tipo":"registrar","usuario_id":5}'' servidor_inicial = Inr s1 \<and>
     on_message JSON_parse_exemplo 7 ''{"tipo":"registrar","usuario_id":"5"}'' s1 = Inr s2 \<and>
     conexoes s2 = [(Num 5, 7), (Str ''5'', 7)] \<and>
     conexoes (on_close 7 s2) = []\<close>
  by (simp add: on_message_def JSON_parse_exemplo_def servidor_inicial_def on_close_def)

section \<open>Registration and notification\<close>

lemma on_message_registra:
  assumes "JSON_parse frame = Inr dados"
    and "membro dados ''tipo'' = Inr (Some (JStr ''registrar''))"
    and "membro dados ''usuario_id'' = Inr uid"
  shows "on_message JSON_parse w frame s =
     Inr (s\<lparr>conexoes := AList.update (valor (prox_ref s) uid) w (conexoes s),
            prox_ref := Suc (prox_ref s)\<rparr>)"
  using assms by (simp add: on_message_def)

lemma notificar_ausente:
  "map_of (conexoes s) (Num (destinatario_id m)) = None \<Longrightarrow> notificarNovaMensagem str s m = s"
  by (simp add: notificarNovaMensagem_def)

lemma post_mensagens_resposta:
  "fst (post_mensagens rd c str db s agora body) = fst (post_mensagens rd c str db s2 agora body) \<and>
   fst (snd (post_mensagens rd c str db s agora body)) =
     fst (snd (post_mensagens rd c str db s2 agora body))"
  by (simp add: post_mensagens_def split: sum.splits prod.splits)

text \<open>
  C7: when the open connection \<open>h\<close> has registered under the number that is the
  recipient id of the message \<open>m\<close>, \<open>notificarNovaMensagem\<close> appends
  \<open>JSON.stringify(m)\<close>, and nothing else, to what \<open>h\<close> has been sent, and sends nothing
  to any other connection. When no entry has that number as its key, the server is left
  as it was, and the route answers with the row that was inserted. Whatever the registry
  and the connections are, the answer of the route is the same.
\<close>

theorem notificar_entrega_ao_registrado:
  "(JSON_parse frame = Inr dados \<and>
    membro dados ''tipo'' = Inr (Some (JStr ''registrar'')) \<and>
    membro dados ''usuario_id'' = Inr (Some (JNum (destinatario_id m))) \<and>
    readyState (sockets s h) = OPEN \<longrightarrow>
      (\<exists>s'. on_message JSON_parse h frame s = Inr s' \<and>
         notificarNovaMensagem str s' m =
           s'\<lparr>sockets := (sockets s)
                (h := (sockets s h)\<lparr>enviados := enviados (sockets s h) @ [str m]\<rparr>)\<rparr>)) \<and>
   (map_of (conexoes s) (Num (destinatario_id m)) = None \<longrightarrow>
      notificarNovaMensagem str s m = s \<and>
      (\<forall>db agora r d t db'.
         param_int rd c (req_remetente_id body) = Inr r \<and>
         param_int rd c (req_destinatario_id body) = Inr d \<and>
         param_text (prepareValue c (req_texto body)) = Inr t \<and>
         inserir_mensagem db agora r d t = (Inr m, db') \<longrightarrow>
         post_mensagens rd c str db s agora body = (Ok200 m, db', s))) \<and>
   fst (post_mensagens rd c str db0 s agora0 body) = fst (post_mensagens rd c str db0 s2 agora0 body)"
proof (intro conjI impI)
  assume a: "JSON_parse frame = Inr dados \<and>
    membro dados ''tipo'' = Inr (Some (JStr ''registrar'')) \<and>
    membro dados ''usuario_id'' = Inr (Some (JNum (destinatario_id m))) \<and>
    readyState (sockets s h) = OPEN"
  let ?s' = "s\<lparr>conexoes := AList.update (Num (destinatario_id m)) h (conexoes s),
            prox_ref := Suc (prox_ref s)\<rparr>"
  from a have "on_message JSON_parse h frame s = Inr ?s'"
    by (simp add: on_message_registra [where uid = "Some (JNum (destinatario_id m))"])
  moreover from a have "notificarNovaMensagem str ?s' m =
           ?s'\<lparr>sockets := (sockets s)
                (h := (sockets s h)\<lparr>enviados := enviados (sockets s h) @ [str m]\<rparr>)\<rparr>"
    by (simp add: notificarNovaMensagem_def update_conv')
  ultimately show "\<exists>s'. on_message JSON_parse h frame s = Inr s' \<and>
         notificarNovaMensagem str s' m =
           s'\<lparr>sockets := (sockets s)
                (h := (sockets s h)\<lparr>enviados := enviados (sockets s h) @ [str m]\<rparr>)\<rparr>"
    by blast
next
  assume "map_of (conexoes s) (Num (destinatario_id m)) = None"
  then show "notificarNovaMensagem str s m = s" by (rule notificar_ausente)
next
  assume n: "map_of (conexoes s) (Num (destinatario_id m)) = None"
  show "\<forall>db agora r d t db'.
         param_int rd c (req_remetente_id body) = Inr r \<and>
         param_int rd c (req_destinatario_id body) = Inr d \<and>
         param_text (prepareValue c (req_texto body)) = Inr t \<and>
         inserir_mensagem db agora r d t = (Inr m, db') \<longrightarrow>
         post_mensagens rd c str db s agora body = (Ok200 m, db', s)"
    by (simp add: post_mensagens_def notificar_ausente [OF n])
next
  show "fst (post_mensagens rd c str db0 s agora0 body) = fst (post_mensagens rd c str db0 s2 agora0 body)"
    using post_mensagens_resposta by blast
qed


theorem notificar_entrega_ao_registrado_witness:
  \<open>JSON_parse_exemplo ''{"tipo":"registrar","usuario_id":5}''
     = Inr (JObj [(''tipo'', JStr ''registrar''), (''usuario_id'', JNum 5)]) \<and>
   membro (JObj [(''tipo'', JStr ''registrar''), (''usuario_id'', JNum 5)]) ''tipo''
     = Inr (Some (JStr ''registrar'')) \<and>
   membro (JObj [(''tipo'', JStr ''registrar''), (''usuario_id'', JNum 5)]) ''usuario_id''
     = Inr (Some (JNum 5)) \<and>
   readyState (sockets servidor_inicial 7) = OPEN \<and>
   (\<exists>s'. on_message JSON_parse_exemplo 7 ''{"tipo":"registrar","usuario_id":5}'' servidor_inicial
           = Inr s' \<and>
         conexoes s' = [(Num 5, 7)] \<and>
         enviados (sockets (notificarNovaMensagem JSON_stringify_exemplo s'
            \<lparr>m_id = 9, remetente_id = 1, destinatario_id = 5, texto = ''oi'', enviado_em = 20\<rparr>) 7)
           = [''{id:9,...}'']) \<and>
   map_of (conexoes servidor_inicial) (Num 2) = None \<and>
   param_text (prepareValue (\<lambda>v. []) (Some (JStr ''oi''))) = Inr (Some ''oi'') \<and>
   inserir_mensagem banco_exemplo 20 (Some 1) (Some 2) (Some ''oi'')
     = (Inr \<lparr>m_id = 4, remetente_id = 1, destinatario_id = 2, texto = ''oi'', enviado_em = 20\<rparr>,
        banco_exemplo\<lparr>mensagens_id_seq := 5, mensagens := mensagens banco_exemplo @
          [\<lparr>m_id = 4, remetente_id = 1, destinatario_id = 2, texto = ''oi'', enviado_em = 20\<rparr>]\<rparr>) \<and>
   post_mensagens (\<lambda>s. Inl invalid_text_representation) (\<lambda>v. []) JSON_stringify_exemplo
       banco_exemplo servidor_inicial 20
       \<lparr>req_remetente_id = Some (JNum 1), req_destinatario_id = Some (JNum 2),
        req_texto = Some (JStr ''oi'')\<rparr>
     = (Ok200 \<lparr>m_id = 4, remetente_id = 1, destinatario_id = 2, texto = ''oi'', enviado_em = 20\<rparr>,
        banco_exemplo\<lparr>mensagens_id_seq := 5, mensagens := mensagens banco_exemplo @
          [\<lparr>m_id = 4, remetente_id = 1, destinatario_id = 2, texto = ''oi'', enviado_em = 20\<rparr>]\<rparr>,
        servidor_inicial)\<close>
proof -
  let ?F = \<open>''{"tipo":"registrar","usuario_id":5}''\<close>
  let ?D = "JObj [(''tipo'', JStr ''registrar''), (''usuario_id'', JNum 5)]"
  let ?m5 = "\<lparr>m_id = 9, remetente_id = 1, destinatario_id = 5, texto = ''oi'', enviado_em = 20\<rparr>"
  let ?m2 = "\<lparr>m_id = 4, remetente_id = 1, destinatario_id = 2, texto = ''oi'', enviado_em = 20\<rparr>"
  let ?db' = "banco_exemplo\<lparr>mensagens_id_seq := 5, mensagens := mensagens banco_exemplo @ [?m2]\<rparr>"
  let ?body = "\<lparr>req_remetente_id = Some (JNum 1), req_destinatario_id = Some (JNum 2),
        req_texto = Some (JStr ''oi'')\<rparr>"
  let ?rd = "\<lambda>s::string. Inl invalid_text_representation :: pg_error + int"
  let ?c = "\<lambda>v::json. [] :: string"
  have h1: "JSON_parse_exemplo ?F = Inr ?D" by (simp add: JSON_parse_exemplo_def)
  have h2: "membro ?D ''tipo'' = Inr (Some (JStr ''registrar''))" by simp
  have h3: "membro ?D ''usuario_id'' = Inr (Some (JNum 5))" by simp
  have h4: "readyState (sockets servidor_inicial 7) = OPEN" by (simp add: servidor_inicial_def)
  have h5: "map_of (conexoes servidor_inicial) (Num 2) = None" by (simp add: servidor_inicial_def)
  have h6: "inserir_mensagem banco_exemplo 20 (Some 1) (Some 2) (Some ''oi'') = (Inr ?m2, ?db')"
    by (simp add: inserir_mensagem_def banco_exemplo_def tres_usuarios_def Let_def)
  have h7: "param_int ?rd ?c (req_remetente_id ?body) = Inr (Some 1)"
    "param_int ?rd ?c (req_destinatario_id ?body) = Inr (Some 2)"
    "param_text (prepareValue ?c (req_texto ?body)) = Inr (Some ''oi'')"
    by (simp_all add: param_text_def)
  note t1 = notificar_entrega_ao_registrado [where JSON_parse = JSON_parse_exemplo
      and frame = ?F and dados = ?D and m = ?m5 and s = servidor_inicial and h = 7
      and str = JSON_stringify_exemplo, THEN conjunct1, THEN mp]
  have "JSON_parse_exemplo ?F = Inr ?D \<and>
    membro ?D ''tipo'' = Inr (Some (JStr ''registrar'')) \<and>
    membro ?D ''usuario_id'' = Inr (Some (JNum (destinatario_id ?m5))) \<and>
    readyState (sockets servidor_inicial 7) = OPEN"
    using h1 h2 h3 h4 by simp
  from t1 [OF this]
  obtain s' where s': "on_message JSON_parse_exemplo 7 ?F servidor_inicial = Inr s'"
    "notificarNovaMensagem JSON_stringify_exemplo s' ?m5 =
       s'\<lparr>sockets := (sockets servidor_inicial)
          (7 := (sockets servidor_inicial 7)\<lparr>enviados := enviados (sockets servidor_inicial 7) @
             [JSON_stringify_exemplo ?m5]\<rparr>)\<rparr>"
    by blast
  have e: "enviados (sockets (notificarNovaMensagem JSON_stringify_exemplo s' ?m5) 7) = [''{id:9,...}'']"
    unfolding s'(2) by (simp add: servidor_inicial_def JSON_stringify_exemplo_def decimal_def digitos.simps)
  have c: "conexoes s' = [(Num 5, 7)]"
    using s'(1) h1 by (auto simp: on_message_def servidor_inicial_def)
  note t2 = notificar_entrega_ao_registrado [where m = ?m2 and s = servidor_inicial
      and str = JSON_stringify_exemplo and c = ?c and body = ?body and rd = ?rd,
      THEN conjunct2, THEN conjunct1, THEN mp, THEN conjunct2, rule_format]
  have h5': "map_of (conexoes servidor_inicial) (Num (destinatario_id ?m2)) = None"
    using h5 by simp
  have p: "post_mensagens ?rd ?c JSON_stringify_exemplo banco_exemplo servidor_inicial 20 ?body
     = (Ok200 ?m2, ?db', servidor_inicial)"
    by (rule t2 [OF h5']) (use h6 h7 in simp)
  from h1 h2 h3 h4 s'(1) e c h5 h6 h7(3) p show ?thesis by simp
qed

text \<open>
  C9: the entry for a message is looked up under its recipient id as a number. When a
  connection registers under a key that is not that number (the string of its digits,
  say) and no entry had that number as its key, the lookup finds nothing and nothing
  is sent.
\<close>

theorem notificar_chave_estrita:
  assumes "JSON_parse frame = Inr dados"
    and "membro dados ''tipo'' = Inr (Some (JStr ''registrar''))"
    and "membro dados ''usuario_id'' = Inr uid"
    and "valor (prox_ref s) uid \<noteq> Num (destinatario_id m)"
    and "map_of (conexoes s) (Num (destinatario_id m)) = None"
  shows "\<exists>s'. on_message JSON_parse h frame s = Inr s' \<and>
     map_of (conexoes s') (Num (destinatario_id m)) = None \<and>
     notificarNovaMensagem str s' m = s'"
proof -
  let ?s' = "s\<lparr>conexoes := AList.update (valor (prox_ref s) uid) h (conexoes s),
            prox_ref := Suc (prox_ref s)\<rparr>"
  have 1: "on_message JSON_parse h frame s = Inr ?s'"
    using assms(1-3) by (simp add: on_message_def)
  have 2: "map_of (conexoes ?s') (Num (destinatario_id m)) = None"
    using assms(4,5) by (simp add: update_conv')
  from 1 2 notificar_ausente [OF 2] show ?thesis by blast
qed

theorem notificar_chave_estrita_witness:
  \<open>JSON_parse_exemplo ''{"tipo":"registrar","usuario_id":"5"}''
     = Inr (JObj [(''tipo'', JStr ''registrar''), (''usuario_id'', JStr ''5'')]) \<and>
   membro (JObj [(''tipo'', JStr ''registrar''), (''usuario_id'', JStr ''5'')]) ''tipo''
     = Inr (Some (JStr ''registrar'')) \<and>
   membro (JObj [(''tipo'', JStr ''registrar''), (''usuario_id'', JStr ''5'')]) ''usuario_id''
     = Inr (Some (JStr ''5'')) \<and>
   valor (prox_ref servidor_inicial) (Some (JStr ''5'')) \<noteq> Num 5 \<and>
   map_of (conexoes servidor_inicial) (Num 5) = None \<and>
   (\<exists>s'. on_message JSON_parse_exemplo 7 ''{"tipo":"registrar","usuario_id":"5"}'' servidor_inicial
          = Inr s' \<and>
        conexoes s' = [(Str ''5'', 7)] \<and>
        notificarNovaMensagem JSON_stringify_exemplo s'
          \<lparr>m_id = 9, remetente_id = 1, destinatario_id = 5, texto = ''oi'', enviado_em = 20\<rparr> = s')\<close>
proof -
  let ?F = \<open>''{"tipo":"registrar","usuario_id":"5"}''\<close>
  let ?D = "JObj [(''tipo'', JStr ''registrar''), (''usuario_id'', JStr ''5'')]"
  let ?m5 = "\<lparr>m_id = 9, remetente_id = 1, destinatario_id = 5, texto = ''oi'', enviado_em = 20\<rparr>"
  have h1: "JSON_parse_exemplo ?F = Inr ?D" by (simp add: JSON_parse_exemplo_def)
  have h2: "membro ?D ''tipo'' = Inr (Some (JStr ''registrar''))" by simp
  have h3: "membro ?D ''usuario_id'' = Inr (Some (JStr ''5''))" by simp
  have h4: "valor (prox_ref servidor_inicial) (Some (JStr ''5'')) \<noteq> Num (destinatario_id ?m5)" by simp
  have h5: "map_of (conexoes servidor_inicial) (Num (destinatario_id ?m5)) = None"
    by (simp add: servidor_inicial_def)
  from notificar_chave_estrita [where JSON_parse = JSON_parse_exemplo and frame = ?F
      and dados = ?D and uid = "Some (JStr ''5'')" and s = servidor_inicial and m = ?m5 and h = 7
      and str = JSON_stringify_exemplo] h1 h2 h3 h4 h5
  obtain s' where s': "on_message JSON_parse_exemplo 7 ?F servidor_inicial = Inr s'"
    "notificarNovaMensagem JSON_stringify_exemplo s' ?m5 = s'"
    by blast
  have c: "conexoes s' = [(Str ''5'', 7)]"
    using s'(1) h1 by (auto simp: on_message_def servidor_inicial_def)
  from h1 h2 h3 h4 h5 s' c show ?thesis by auto
qed

text \<open>
  C10: what \<open>JSON.parse\<close> throws on a frame leaves the handler of the connection; the
  frame is not ignored. A frame that \<open>JSON.parse\<close> reads as \<open>null\<close> makes the handler
  throw as well, at \<open>dados.tipo\<close>.
\<close>

theorem on_message_lanca:
  "JSON_parse frame = Inl e \<Longrightarrow> on_message JSON_parse w frame s = Inl e"
  by (simp add: on_message_def)

theorem on_message_lanca_witness:
  "JSON_parse_exemplo ''{'' = Inl SyntaxError \<and>
   on_message JSON_parse_exemplo 7 ''{'' servidor_inicial = Inl SyntaxError"
proof -
  have h: "JSON_parse_exemplo ''{'' = Inl SyntaxError" by (simp add: JSON_parse_exemplo_def)
  from on_message_lanca [where JSON_parse = JSON_parse_exemplo and frame = "''{''"
      and e = SyntaxError and w = 7 and s = servidor_inicial] h
  show ?thesis by simp
qed

lemma on_message_null:
  "JSON_parse frame = Inr JNull \<Longrightarrow> on_message JSON_parse w frame s = Inl TypeError"
  by (simp add: on_message_def)

section \<open>The inserts keep the store intact\<close>

lemma inserir_usuario_integro:
  assumes "integro db"
  shows "integro (snd (inserir_usuario db agora n t))"
  using assms
  by (auto simp: inserir_usuario_def integro_def Let_def split: option.splits sum.splits)

lemma inserir_mensagem_integro:
  assumes "integro db"
  shows "integro (snd (inserir_mensagem db agora r d t))"
  using assms
  by (auto simp: inserir_mensagem_def integro_def Let_def split: option.splits sum.splits)

lemma post_usuarios_integro:
  "integro db \<Longrightarrow> integro (snd (post_usuarios c db agora body))"
proof (cases "param_text (prepareValue c (req_nome body))")
  case (Inl e)
  then show "integro db \<Longrightarrow> ?thesis" by (simp add: post_usuarios_def)
next
  case n: (Inr n)
  show "integro db \<Longrightarrow> ?thesis"
  proof (cases "param_text (prepareValue c (req_telefone body))")
    case (Inl e)
    with n show "integro db \<Longrightarrow> ?thesis" by (simp add: post_usuarios_def)
  next
    case t: (Inr t)
    assume "integro db"
    from inserir_usuario_integro [OF this, of agora n t] n t
    show ?thesis
      by (cases "inserir_usuario db agora n t") (auto simp: post_usuarios_def split: sum.splits)
  qed
qed

lemma post_mensagens_integro:
  assumes "integro db"
  shows "integro (fst (snd (post_mensagens rd c str db s agora body)))"
proof (cases "param_int rd c (req_remetente_id body)")
  case (Inl e)
  with assms show ?thesis by (simp add: post_mensagens_def)
next
  case r: (Inr r)
  show ?thesis
  proof (cases "param_int rd c (req_destinatario_id body)")
    case (Inl e)
    with assms r show ?thesis by (simp add: post_mensagens_def)
  next
    case d: (Inr d)
    show ?thesis
    proof (cases "param_text (prepareValue c (req_texto body))")
      case (Inl e)
      with assms r d show ?thesis by (simp add: post_mensagens_def)
    next
      case t: (Inr t)
      from inserir_mensagem_integro [OF assms, of agora r d t] r d t
      show ?thesis
        by (cases "inserir_mensagem db agora r d t") (auto simp: post_mensagens_def split: sum.splits)
    qed
  qed
qed

section \<open>Sending a message\<close>

lemma inserir_mensagem_ok:
  assumes "integro db" "mensagens_id_seq db \<le> 2147483647"
    and "r \<in> set (map u_id (usuarios db))" "d \<in> set (map u_id (usuarios db))"
  shows "inserir_mensagem db agora (Some r) (Some d) (Some t) =
     (Inr \<lparr>m_id = mensagens_id_seq db, remetente_id = r, destinatario_id = d, texto = t,
            enviado_em = agora\<rparr>,
      db\<lparr>mensagens_id_seq := mensagens_id_seq db + 1,
         mensagens := mensagens db @
           [\<lparr>m_id = mensagens_id_seq db, remetente_id = r, destinatario_id = d, texto = t,
             enviado_em = agora\<rparr>]\<rparr>)"
proof -
  from assms(1) have "mensagens_id_seq db \<notin> set (map m_id (mensagens db))"
    by (auto simp: integro_def)
  with assms(2-4) show ?thesis by (simp add: inserir_mensagem_def Let_def)
qed

lemma inserir_mensagem_falha:
  assumes "\<not> mensagens_id_seq db \<le> 2147483647 \<or> r = None \<or> d = None \<or> t = None \<or>
     the r \<notin> set (map u_id (usuarios db)) \<or> the d \<notin> set (map u_id (usuarios db))"
  shows "\<exists>e db'. inserir_mensagem db agora r d t = (Inl e, db') \<and>
     mensagens db' = mensagens db \<and> usuarios db' = usuarios db"
  using assms
  by (cases r; cases d; cases t) (auto simp: inserir_mensagem_def Let_def)

text \<open>
  C4 (as amended): over an intact store whose sequence of message ids has not run out,
  \<open>POST /mensagens\<close> succeeds exactly when both ids are read as ids of users of the
  store and the text is accepted by the store, which is the case for every text that is
  neither absent nor \<open>null\<close> and holds no character of code 0; the empty text is
  accepted. It then answers with the persisted row, whose id is the next value of the
  sequence (the id of no stored message) and whose time is the current time, and the row
  is the last of the table. In every other case it answers 400 and both tables are as
  before.
\<close>

theorem post_mensagens_valida:
  assumes "integro db"
  shows "if mensagens_id_seq db \<le> 2147483647 \<and>
            referencia rd c db (req_remetente_id body) \<and>
            referencia rd c db (req_destinatario_id body) \<and>
            texto_aceito c (req_texto body)
         then (\<exists>m. post_mensagens rd c str db s agora body =
                 (Ok200 m,
                  db\<lparr>mensagens_id_seq := mensagens_id_seq db + 1,
                     mensagens := mensagens db @ [m]\<rparr>,
                  notificarNovaMensagem str s m) \<and>
               m_id m = mensagens_id_seq db \<and>
               m_id m \<notin> set (map m_id (mensagens db)) \<and>
               param_int rd c (req_remetente_id body) = Inr (Some (remetente_id m)) \<and>
               param_int rd c (req_destinatario_id body) = Inr (Some (destinatario_id m)) \<and>
               prepareValue c (req_texto body) = Some (texto m) \<and>
               enviado_em m = agora)
         else (\<exists>db'. post_mensagens rd c str db s agora body =
                 (Falha 400 ''Erro ao enviar mensagem'', db', s) \<and>
               mensagens db' = mensagens db \<and> usuarios db' = usuarios db)"
proof (cases "mensagens_id_seq db \<le> 2147483647 \<and>
            referencia rd c db (req_remetente_id body) \<and>
            referencia rd c db (req_destinatario_id body) \<and>
            texto_aceito c (req_texto body)")
  case True
  then obtain r d t where p: "param_int rd c (req_remetente_id body) = Inr (Some r)"
      "param_int rd c (req_destinatario_id body) = Inr (Some d)"
      "param_text (prepareValue c (req_texto body)) = Inr (Some t)"
    and u: "r \<in> set (map u_id (usuarios db))" "d \<in> set (map u_id (usuarios db))"
    by (auto simp: referencia_def texto_aceito_def split: sum.splits option.splits)
  from p(3) have pv: "prepareValue c (req_texto body) = Some t"
    by (auto simp: param_text_def split: option.splits if_splits)
  from True have q: "mensagens_id_seq db \<le> 2147483647" by simp
  let ?m = "\<lparr>m_id = mensagens_id_seq db, remetente_id = r, destinatario_id = d, texto = t,
            enviado_em = agora\<rparr>"
  from assms have n: "mensagens_id_seq db \<notin> set (map m_id (mensagens db))"
    by (auto simp: integro_def)
  have "post_mensagens rd c str db s agora body =
      (Ok200 ?m, db\<lparr>mensagens_id_seq := mensagens_id_seq db + 1, mensagens := mensagens db @ [?m]\<rparr>,
       notificarNovaMensagem str s ?m)"
    by (simp add: post_mensagens_def p inserir_mensagem_ok [OF assms q u])
  with p(1,2) pv n have "\<exists>m. post_mensagens rd c str db s agora body =
                 (Ok200 m,
                  db\<lparr>mensagens_id_seq := mensagens_id_seq db + 1,
                     mensagens := mensagens db @ [m]\<rparr>,
                  notificarNovaMensagem str s m) \<and>
               m_id m = mensagens_id_seq db \<and>
               m_id m \<notin> set (map m_id (mensagens db)) \<and>
               param_int rd c (req_remetente_id body) = Inr (Some (remetente_id m)) \<and>
               param_int rd c (req_destinatario_id body) = Inr (Some (destinatario_id m)) \<and>
               prepareValue c (req_texto body) = Some (texto m) \<and>
               enviado_em m = agora"
    by (intro exI [of _ ?m]) simp
  with True show ?thesis by simp
next
  case False
  have "\<exists>db'. post_mensagens rd c str db s agora body =
                 (Falha 400 ''Erro ao enviar mensagem'', db', s) \<and>
               mensagens db' = mensagens db \<and> usuarios db' = usuarios db"
  proof (cases "param_int rd c (req_remetente_id body)")
    case (Inl e)
    then show ?thesis by (simp add: post_mensagens_def)
  next
    case r: (Inr r)
    show ?thesis
    proof (cases "param_int rd c (req_destinatario_id body)")
      case (Inl e)
      with r show ?thesis by (simp add: post_mensagens_def)
    next
      case d: (Inr d)
      show ?thesis
      proof (cases "param_text (prepareValue c (req_texto body))")
        case (Inl e)
        with r d show ?thesis by (simp add: post_mensagens_def)
      next
        case t: (Inr t)
        from False r d t have "\<not> mensagens_id_seq db \<le> 2147483647 \<or>
            r = None \<or> d = None \<or> t = None \<or>
            the r \<notin> set (map u_id (usuarios db)) \<or> the d \<notin> set (map u_id (usuarios db))"
          by (auto simp: referencia_def texto_aceito_def)
        from inserir_mensagem_falha [OF this, of agora] r d t
        show ?thesis by (auto simp: post_mensagens_def)
      qed
    qed
  qed
  then show ?thesis by (subst if_not_P [OF False])
qed

theorem post_mensagens_valida_witness:
  "integro banco_exemplo \<and>
   mensagens_id_seq banco_exemplo \<le> 2147483647 \<and>
   referencia int4in_exemplo composto_exemplo banco_exemplo (Some (JNum 1)) \<and>
   referencia int4in_exemplo composto_exemplo banco_exemplo (Some (JStr ''2'')) \<and>
   texto_aceito composto_exemplo (Some (JStr ''oi'')) \<and>
   (\<exists>m. post_mensagens int4in_exemplo composto_exemplo JSON_stringify_exemplo banco_exemplo
           servidor_inicial 20
           \<lparr>req_remetente_id = Some (JNum 1), req_destinatario_id = Some (JStr ''2''),
            req_texto = Some (JStr ''oi'')\<rparr>
         = (Ok200 m,
            banco_exemplo\<lparr>mensagens_id_seq := mensagens_id_seq banco_exemplo + 1,
               mensagens := mensagens banco_exemplo @ [m]\<rparr>,
            notificarNovaMensagem JSON_stringify_exemplo servidor_inicial m) \<and>
        m = \<lparr>m_id = 4, remetente_id = 1, destinatario_id = 2, texto = ''oi'', enviado_em = 20\<rparr>) \<and>
   \<not> referencia int4in_exemplo composto_exemplo banco_exemplo (Some (JNum 9)) \<and>
   (\<exists>db'. post_mensagens int4in_exemplo composto_exemplo JSON_stringify_exemplo banco_exemplo
           servidor_inicial 20
           \<lparr>req_remetente_id = Some (JNum 9), req_destinatario_id = Some (JStr ''2''),
            req_texto = Some (JStr ''oi'')\<rparr>
         = (Falha 400 ''Erro ao enviar mensagem'', db', servidor_inicial) \<and>
        mensagens db' = mensagens banco_exemplo \<and> usuarios db' = usuarios banco_exemplo)"
proof -
  let ?b1 = "\<lparr>req_remetente_id = Some (JNum 1), req_destinatario_id = Some (JStr ''2''),
            req_texto = Some (JStr ''oi'')\<rparr>"
  let ?b2 = "\<lparr>req_remetente_id = Some (JNum 9), req_destinatario_id = Some (JStr ''2''),
            req_texto = Some (JStr ''oi'')\<rparr>"
  have r1: "referencia int4in_exemplo composto_exemplo banco_exemplo (Some (JNum 1))"
    by (simp add: referencia_def banco_exemplo_def tres_usuarios_def)
  have r2: "referencia int4in_exemplo composto_exemplo banco_exemplo (Some (JStr ''2''))"
    by (simp add: referencia_def int4in_exemplo_def banco_exemplo_def tres_usuarios_def)
  have r3: "texto_aceito composto_exemplo (Some (JStr ''oi''))"
    by (simp add: texto_aceito_def param_text_def)
  have r0: "mensagens_id_seq banco_exemplo \<le> 2147483647" by (simp add: banco_exemplo_def)
  have r9: "\<not> referencia int4in_exemplo composto_exemplo banco_exemplo (Some (JNum 9))"
    by (simp add: referencia_def banco_exemplo_def tres_usuarios_def)
  note t1 = post_mensagens_valida [OF integro_banco_exemplo, of int4in_exemplo composto_exemplo
      ?b1 JSON_stringify_exemplo servidor_inicial 20]
  note t2 = post_mensagens_valida [OF integro_banco_exemplo, of int4in_exemplo composto_exemplo
      ?b2 JSON_stringify_exemplo servidor_inicial 20]
  from t1 r0 r1 r2 r3 obtain m where m:
    "post_mensagens int4in_exemplo composto_exemplo JSON_stringify_exemplo banco_exemplo
           servidor_inicial 20 ?b1
         = (Ok200 m,
            banco_exemplo\<lparr>mensagens_id_seq := mensagens_id_seq banco_exemplo + 1,
               mensagens := mensagens banco_exemplo @ [m]\<rparr>,
            notificarNovaMensagem JSON_stringify_exemplo servidor_inicial m)"
    "m_id m = mensagens_id_seq banco_exemplo"
    "param_int int4in_exemplo composto_exemplo (req_remetente_id ?b1) = Inr (Some (remetente_id m))"
    "param_int int4in_exemplo composto_exemplo (req_destinatario_id ?b1) = Inr (Some (destinatario_id m))"
    "prepareValue composto_exemplo (req_texto ?b1) = Some (texto m)"
    "enviado_em m = 20"
    by auto
  from m(2-6) have "m = \<lparr>m_id = 4, remetente_id = 1, destinatario_id = 2, texto = ''oi'', enviado_em = 20\<rparr>"
    by (cases m) (simp add: banco_exemplo_def int4in_exemplo_def)
  with m(1) have a: "\<exists>m. post_mensagens int4in_exemplo composto_exemplo JSON_stringify_exemplo banco_exemplo
           servidor_inicial 20 ?b1
         = (Ok200 m,
            banco_exemplo\<lparr>mensagens_id_seq := mensagens_id_seq banco_exemplo + 1,
               mensagens := mensagens banco_exemplo @ [m]\<rparr>,
            notificarNovaMensagem JSON_stringify_exemplo servidor_inicial m) \<and>
        m = \<lparr>m_id = 4, remetente_id = 1, destinatario_id = 2, texto = ''oi'', enviado_em = 20\<rparr>"
    by blast
  from t2 r9 have b: "\<exists>db'. post_mensagens int4in_exemplo composto_exemplo JSON_stringify_exemplo
           banco_exemplo servidor_inicial 20 ?b2
         = (Falha 400 ''Erro ao enviar mensagem'', db', servidor_inicial) \<and>
        mensagens db' = mensagens banco_exemplo \<and> usuarios db' = usuarios banco_exemplo"
    by simp
  from integro_banco_exemplo r0 r1 r2 r3 a r9 b show ?thesis by blast
qed

text \<open>
  C4 (as stated) fails: in a store with the users 1 and 2, a message from 1 to 2 whose
  text is the empty string is accepted, answered with 200 and stored.
\<close>

theorem post_mensagens_texto_vazio_contraexemplo:
  "post_mensagens int4in_exemplo composto_exemplo JSON_stringify_exemplo
     \<lparr>usuarios =
        [\<lparr>u_id = 1, nome = ''Ana'', telefone = ''555-0001'', criado_em = 1\<rparr>,
         \<lparr>u_id = 2, nome = ''Bob'', telefone = ''555-0002'', criado_em = 2\<rparr>],
      mensagens = [], usuarios_id_seq = 3, mensagens_id_seq = 1\<rparr>
     servidor_inicial 20
     \<lparr>req_remetente_id = Some (JNum 1), req_destinatario_id = Some (JNum 2),
      req_texto = Some (JStr [])\<rparr>
   = (Ok200 \<lparr>m_id = 1, remetente_id = 1, destinatario_id = 2, texto = [], enviado_em = 20\<rparr>,
      \<lparr>usuarios =
        [\<lparr>u_id = 1, nome = ''Ana'', telefone = ''555-0001'', criado_em = 1\<rparr>,
         \<lparr>u_id = 2, nome = ''Bob'', telefone = ''555-0002'', criado_em = 2\<rparr>],
       mensagens =
        [\<lparr>m_id = 1, remetente_id = 1, destinatario_id = 2, texto = [], enviado_em = 20\<rparr>],
       usuarios_id_seq = 3, mensagens_id_seq = 2\<rparr>,
      servidor_inicial)"
  by (simp add: post_mensagens_def param_text_def inserir_mensagem_def Let_def
      notificarNovaMensagem_def servidor_inicial_def)

section \<open>Creating a user\<close>

lemma param_text_Some: "param_text v = Inr (Some s) \<Longrightarrow> v = Some s"
  by (auto simp: param_text_def split: option.splits if_splits)

lemma inserir_usuario_em_uso:
  assumes "varchar 20 t = Inr (Some t1)" "t1 \<in> set (map telefone (usuarios db))"
  shows "\<exists>e db'. inserir_usuario db agora n t = (Inl e, db') \<and> usuarios db' = usuarios db"
proof (cases "varchar 100 n")
  case (Inl e)
  then show ?thesis by (simp add: inserir_usuario_def)
next
  case n1: (Inr n1)
  show ?thesis
  proof (cases "usuarios_id_seq db > 2147483647")
    case True
    with n1 assms(1) show ?thesis by (simp add: inserir_usuario_def)
  next
    case False
    show ?thesis
    proof (cases n1)
      case None
      with n1 assms(1) False show ?thesis by (simp add: inserir_usuario_def Let_def)
    next
      case (Some n2)
      with n1 assms False show ?thesis by (simp add: inserir_usuario_def Let_def)
    qed
  qed
qed

lemma inserir_usuario_sucesso:
  assumes "inserir_usuario db agora n t = (Inr u, db1)"
  shows "varchar 20 t = Inr (Some (telefone u)) \<and>
     telefone u \<notin> set (map telefone (usuarios db)) \<and>
     usuarios db1 = usuarios db @ [u]"
proof (cases "varchar 100 n")
  case (Inl e)
  with assms show ?thesis by (simp add: inserir_usuario_def)
next
  case n1: (Inr n1)
  show ?thesis
  proof (cases "varchar 20 t")
    case (Inl e)
    with assms n1 show ?thesis by (simp add: inserir_usuario_def)
  next
    case t1: (Inr t1)
    show ?thesis
    proof (cases "usuarios_id_seq db > 2147483647")
      case True
      with assms n1 t1 show ?thesis by (simp add: inserir_usuario_def)
    next
      case False
      show ?thesis
      proof (cases n1)
        case None
        with assms n1 t1 False show ?thesis by (simp add: inserir_usuario_def Let_def)
      next
        case n2: (Some n2)
        show ?thesis
        proof (cases t1)
          case None
          with assms n1 t1 n2 False show ?thesis by (simp add: inserir_usuario_def Let_def)
        next
          case (Some t2)
          with assms n1 t1 n2 False show ?thesis
            by (auto simp: inserir_usuario_def Let_def split: if_splits)
        qed
      qed
    qed
  qed
qed

lemma post_usuarios_em_uso:
  assumes "varchar 20 (prepareValue c (req_telefone body)) = Inr (Some t1)"
    and "t1 \<in> set (map telefone (usuarios db))"
  shows "\<exists>db'. post_usuarios c db agora body = (Falha 400 erro_usuario, db') \<and>
     usuarios db' = usuarios db"
proof (cases "param_text (prepareValue c (req_nome body))")
  case (Inl e)
  then show ?thesis by (simp add: post_usuarios_def)
next
  case n: (Inr n)
  show ?thesis
  proof (cases "param_text (prepareValue c (req_telefone body))")
    case (Inl e)
    with n show ?thesis by (simp add: post_usuarios_def)
  next
    case t: (Inr t)
    with assms(1) have "t = prepareValue c (req_telefone body)"
      by (auto simp: param_text_def varchar_def split: option.splits if_splits)
    with assms have "varchar 20 t = Inr (Some t1)" by simp
    from inserir_usuario_em_uso [OF this assms(2), of agora n] n t
    show ?thesis by (auto simp: post_usuarios_def)
  qed
qed

text \<open>
  C5: a request whose \<open>telefone\<close>, as the store would hold it, is the \<open>telefone\<close> of a
  stored user is answered with 400 and leaves the table of users as it was. So after
  a request that succeeded, a second request with the same \<open>telefone\<close> fails, and the
  list of \<open>GET /usuarios\<close> then holds, under every plan, exactly one user with that
  \<open>telefone\<close>: the one the first request created.
\<close>

theorem post_usuarios_telefone_em_uso:
  "(varchar 20 (prepareValue c (req_telefone body)) = Inr (Some t1) \<and>
    t1 \<in> set (map telefone (usuarios db)) \<longrightarrow>
      (\<exists>db'. post_usuarios c db agora body = (Falha 400 erro_usuario, db') \<and>
             usuarios db' = usuarios db)) \<and>
   (post_usuarios c db agora body = (Ok200 u, db1) \<and> req_telefone body2 = req_telefone body \<longrightarrow>
      (\<exists>db2 us. post_usuarios c db1 agora2 body2 = (Falha 400 erro_usuario, db2) \<and>
         usuarios db2 = usuarios db1 \<and>
         get_usuarios plano db2 = Ok200 us \<and>
         filter (\<lambda>x. telefone x = telefone u) us = [u]))"
proof (intro conjI impI)
  assume "varchar 20 (prepareValue c (req_telefone body)) = Inr (Some t1) \<and>
    t1 \<in> set (map telefone (usuarios db))"
  then show "\<exists>db'. post_usuarios c db agora body = (Falha 400 erro_usuario, db') \<and>
             usuarios db' = usuarios db"
    using post_usuarios_em_uso by blast
next
  assume b: "post_usuarios c db agora body = (Ok200 u, db1) \<and> req_telefone body2 = req_telefone body"
  then obtain n t where nt: "param_text (prepareValue c (req_telefone body)) = Inr t"
      "inserir_usuario db agora n t = (Inr u, db1)"
    by (auto simp: post_usuarios_def split: prod.splits sum.splits)
  from inserir_usuario_sucesso [OF nt(2)]
  have t0: "varchar 20 t = Inr (Some (telefone u))"
      "telefone u \<notin> set (map telefone (usuarios db))"
      "usuarios db1 = usuarios db @ [u]"
    by simp_all
  from t0(1) obtain s0 where "t = Some s0" by (cases t) (auto simp: varchar_def)
  with nt(1) have "prepareValue c (req_telefone body) = t" using param_text_Some by blast
  with t0(1) b have v: "varchar 20 (prepareValue c (req_telefone body2)) = Inr (Some (telefone u))"
    by simp
  from t0(3) have "telefone u \<in> set (map telefone (usuarios db1))" by simp
  from post_usuarios_em_uso [OF v this, of agora2]
  obtain db2 where p: "post_usuarios c db1 agora2 body2 = (Falha 400 erro_usuario, db2)"
      "usuarios db2 = usuarios db1"
    by blast
  have "filter (\<lambda>x. telefone x = telefone u) (usuarios db1) = [u]"
    using t0(2,3) by (auto simp: filter_empty_conv image_iff)
  then have "filter (\<lambda>x. telefone x = telefone u) (order_by plano nome (usuarios db2)) = [u]"
    by (rule filter_mset_unico [rotated]) (simp add: p(2))
  with p show "\<exists>db2 us. post_usuarios c db1 agora2 body2 = (Falha 400 erro_usuario, db2) \<and>
         usuarios db2 = usuarios db1 \<and>
         get_usuarios plano db2 = Ok200 us \<and>
         filter (\<lambda>x. telefone x = telefone u) us = [u]"
    by (simp add: get_usuarios_def)
qed

theorem post_usuarios_telefone_em_uso_witness:
  "varchar 20 (prepareValue composto_exemplo (Some (JStr ''555-0001''))) = Inr (Some ''555-0001'') \<and>
   ''555-0001'' \<in> set (map telefone (usuarios banco_exemplo)) \<and>
   (\<exists>db'. post_usuarios composto_exemplo banco_exemplo 30
            \<lparr>req_nome = Some (JStr ''Eva''), req_telefone = Some (JStr ''555-0001'')\<rparr>
          = (Falha 400 erro_usuario, db') \<and>
          usuarios db' = usuarios banco_exemplo) \<and>
   post_usuarios composto_exemplo banco_exemplo 30
       \<lparr>req_nome = Some (JStr ''Eva''), req_telefone = Some (JStr ''555-0004'')\<rparr>
     = (Ok200 \<lparr>u_id = 4, nome = ''Eva'', telefone = ''555-0004'', criado_em = 30\<rparr>,
        banco_exemplo\<lparr>usuarios_id_seq := 5, usuarios := usuarios banco_exemplo @
          [\<lparr>u_id = 4, nome = ''Eva'', telefone = ''555-0004'', criado_em = 30\<rparr>]\<rparr>) \<and>
   (\<exists>db2 us. post_usuarios composto_exemplo
          (banco_exemplo\<lparr>usuarios_id_seq := 5, usuarios := usuarios banco_exemplo @
            [\<lparr>u_id = 4, nome = ''Eva'', telefone = ''555-0004'', criado_em = 30\<rparr>]\<rparr>) 31
          \<lparr>req_nome = Some (JStr ''Edu''), req_telefone = Some (JStr ''555-0004'')\<rparr>
        = (Falha 400 erro_usuario, db2) \<and>
      get_usuarios id db2 = Ok200 us \<and>
      filter (\<lambda>x. telefone x = ''555-0004'') us
        = [\<lparr>u_id = 4, nome = ''Eva'', telefone = ''555-0004'', criado_em = 30\<rparr>])"
proof -
  let ?b0 = "\<lparr>req_nome = Some (JStr ''Eva''), req_telefone = Some (JStr ''555-0001'')\<rparr>"
  let ?b1 = "\<lparr>req_nome = Some (JStr ''Eva''), req_telefone = Some (JStr ''555-0004'')\<rparr>"
  let ?b2 = "\<lparr>req_nome = Some (JStr ''Edu''), req_telefone = Some (JStr ''555-0004'')\<rparr>"
  let ?u = "\<lparr>u_id = 4, nome = ''Eva'', telefone = ''555-0004'', criado_em = 30\<rparr>"
  let ?db1 = "banco_exemplo\<lparr>usuarios_id_seq := 5, usuarios := usuarios banco_exemplo @ [?u]\<rparr>"
  have h2: "varchar 20 (prepareValue composto_exemplo (Some (JStr ''555-0001''))) = Inr (Some ''555-0001'')"
    by (simp add: varchar_def)
  have h3: "''555-0001'' \<in> set (map telefone (usuarios banco_exemplo))"
    by (simp add: banco_exemplo_def tres_usuarios_def)
  have h4: "post_usuarios composto_exemplo banco_exemplo 30 ?b1 = (Ok200 ?u, ?db1)"
    by (simp add: post_usuarios_def param_text_def inserir_usuario_def Let_def varchar_def
        banco_exemplo_def tres_usuarios_def)
  note t1 = post_usuarios_telefone_em_uso [where c = composto_exemplo and body = ?b0
      and ?t1.0 = "''555-0001''" and db = banco_exemplo and agora = 30,
      THEN conjunct1, THEN mp]
  have a: "\<exists>db'. post_usuarios composto_exemplo banco_exemplo 30 ?b0 = (Falha 400 erro_usuario, db') \<and>
          usuarios db' = usuarios banco_exemplo"
    by (rule t1) (use h2 h3 in simp)
  note t2 = post_usuarios_telefone_em_uso [where c = composto_exemplo and body = ?b1
      and db = banco_exemplo and agora = 30 and u = ?u and ?db1.0 = ?db1 and ?body2.0 = ?b2
      and ?agora2.0 = 31 and plano = id, THEN conjunct2, THEN mp]
  have "\<exists>db2 us. post_usuarios composto_exemplo ?db1 31 ?b2 = (Falha 400 erro_usuario, db2) \<and>
         usuarios db2 = usuarios ?db1 \<and>
         get_usuarios id db2 = Ok200 us \<and>
         filter (\<lambda>x. telefone x = telefone ?u) us = [?u]"
    by (rule t2) (use h4 in simp)
  then have b: "\<exists>db2 us. post_usuarios composto_exemplo ?db1 31 ?b2 = (Falha 400 erro_usuario, db2) \<and>
      get_usuarios id db2 = Ok200 us \<and>
      filter (\<lambda>x. telefone x = ''555-0004'') us = [?u]"
    by auto
  from h2 h3 a h4 b show ?thesis by blast
qed

end
